theory Spec2Isabelle
  imports Main "HOL-Library.Sublist"
begin

text \<open>
  ConceptViz is a single Streamlit script, \<open>app.py\<close>. For a concept typed by the
  user it asks a language model for an explanation and for a Plotly script, executes the
  script, and asks again, with the error text, when that fails, at most three times.
  This theory embeds the three functions of the script (\<open>get_explanation\<close>,
  \<open>get_visualization_code\<close>, \<open>execute_and_render\<close>) and the handler of its button
  with the retry loop, and proves what the specification says about them.
\<close>

section \<open>Python strings\<close>

text \<open>
  A Python \<open>str\<close> is a sequence of Unicode code points, so a string is a list of
  natural numbers, one per code point. \<open>ascii\<close> turns an ASCII literal into such a list;
  the accented letters of the program's Spanish messages are written as their code points
  (for instance 243 for o-acute).
\<close>

type_synonym pystr = "nat list"

definition ascii :: "string \<Rightarrow> pystr" where
  "ascii s = map of_char s"

text \<open>
  \<open>str.isspace\<close> on one code point: the characters that \<open>str.strip()\<close> with no
  argument removes.
\<close>

definition isspace :: "nat \<Rightarrow> bool" where
  "isspace c \<longleftrightarrow>
     c \<in> {9, 10, 11, 12, 13, 28, 29, 30, 31, 32, 133, 160, 5760}
     \<or> (8192 \<le> c \<and> c \<le> 8202)
     \<or> c \<in> {8232, 8233, 8239, 8287, 12288}"

definition strip :: "pystr \<Rightarrow> pystr" where
  "strip s = rev (dropWhile isspace (rev (dropWhile isspace s)))"

text \<open>
  \<open>s.replace(old, new)\<close>: every non-overlapping occurrence of \<open>old\<close>, found from the
  left, is replaced by \<open>new\<close>. With an empty \<open>old\<close> Python inserts \<open>new\<close> before every
  character and at the end.
\<close>

fun replace :: "'a list \<Rightarrow> 'a list \<Rightarrow> 'a list \<Rightarrow> 'a list" where
  "replace old new [] = (if old = [] then new else [])"
| "replace old new (x # xs) =
     (if old = [] then new @ x # replace old new xs
      else if prefix old (x # xs) then new @ replace old new (drop (length old) (x # xs))
      else x # replace old new xs)"

text \<open>\<open>str(n)\<close> for a non-negative integer, as the f-strings format \<open>attempt + 1\<close>.\<close>

fun str_nat :: "nat \<Rightarrow> pystr" where
  "str_nat n = (if n < 10 then [48 + n] else str_nat (n div 10) @ [48 + n mod 10])"

text \<open>\<open>f"{x}"\<close> for a value that is \<open>None\<close> or a string.\<close>

definition format_optional :: "pystr option \<Rightarrow> pystr" where
  "format_optional x = (case x of None \<Rightarrow> ascii ''None'' | Some s \<Rightarrow> s)"

section \<open>Exceptions and the outside world\<close>

text \<open>
  An exception object is a value: its class name and the text \<open>str(e)\<close> gives. What
  is raised is also told apart by whether \<open>except Exception\<close> catches it: \<open>Err e\<close> is
  an instance of \<open>Exception\<close>, \<open>Exit e\<close> is not (\<open>SystemExit\<close>,
  \<open>KeyboardInterrupt\<close>, \<open>GeneratorExit\<close>). A computation that may raise has a sum
  type, with \<open>Inl\<close> for what is raised.
\<close>

datatype py_exc = PyExc (exc_class: string) (exc_str: pystr)

datatype py_raise = Err py_exc | Exit py_exc

text \<open>
  The program talks to three things it does not define: the language model
  (\<open>model.generate_content(prompt).text\<close>), the interpreter (\<open>exec\<close>) and the chart
  widget (\<open>st.plotly_chart\<close>). Each is a parameter. None of them need answer the same
  way twice, so each takes the position of the call in the run: the model the number of
  earlier model calls (the explanation is call 0, the code generation of attempt \<open>a\<close> is
  call \<open>a + 1\<close>), the other two the attempt counter. \<open>py_exec\<close> returns the local scope
  the executed text leaves, \<open>plotly_chart\<close> the exception it raises, if any. \<open>'v\<close> is
  the type of Python values. A failure of the model call or of the chart call is an
  instance of \<open>Exception\<close>; the executed text can raise anything, also \<open>SystemExit\<close>.
\<close>

record 'v world =
  generate_content :: "nat \<Rightarrow> pystr \<Rightarrow> py_exc + pystr"
  py_exec :: "nat \<Rightarrow> pystr \<Rightarrow> py_raise + (pystr \<rightharpoonup> 'v)"
  plotly_chart :: "nat \<Rightarrow> 'v \<Rightarrow> py_exc option"

section \<open>\<open>get_explanation\<close>\<close>

definition explanation_prompt :: "pystr \<Rightarrow> pystr" where
  "explanation_prompt concept = concat
    [ [10],
     ascii ''        Explica el concepto '', [39], concept, [39],
     ascii '' de manera breve, did'', [225],
     ascii ''ctica y clara para un estudiante universitario. '', [10],
     ascii ''        Usa un tono educativo. M'', [225], ascii ''ximo 200 palabras.'', [10],
     ascii ''        '']"

text \<open>The body of the \<open>try\<close> block, then the function with its \<open>except\<close> clause.\<close>

definition get_explanation_try :: "(pystr \<Rightarrow> py_exc + pystr) \<Rightarrow> pystr \<Rightarrow> py_exc + pystr" where
  "get_explanation_try model concept = model (explanation_prompt concept)"

definition get_explanation :: "(pystr \<Rightarrow> py_exc + pystr) \<Rightarrow> pystr \<Rightarrow> py_exc + pystr" where
  "get_explanation model concept =
     (case get_explanation_try model concept of
        Inr text \<Rightarrow> Inr text
      | Inl e \<Rightarrow> Inr (ascii ''Error generando explicaci'' @ [243] @ ascii ''n: '' @ exc_str e))"

section \<open>\<open>get_visualization_code\<close>\<close>

definition base_prompt :: "pystr \<Rightarrow> pystr" where
  "base_prompt concept = concat
    [ [10],
     ascii ''    Genera un script de Python COMPLETO y EJECUTABLE para visualizar el concepto: '',
     [39], concept, [39],
     ascii '' usando la librer'', [237], ascii ''a 'plotly'.'', [10],
     ascii ''    '', [10],
     ascii ''    Reglas ESTRICTAS:'', [10],
     ascii ''    1. El c'', [243],
     ascii ''digo debe crear un objeto figura de Plotly y guardarlo en una variable llamada `fig`.'',
     [10],
     ascii ''    2. NO uses `fig.show()`. La figura se renderizar'', [225],
     ascii '' externamente.'', [10],
     ascii ''    3. Si necesitas datos, gen'', [233], ascii ''ralos din'', [225],
     ascii ''micamente usando `numpy` (np) o `pandas` (pd).'', [10],
     ascii ''    4. Usa librer'', [237], ascii ''as est'', [225],
     ascii ''ndar o `plotly`, `pandas`, `numpy`.'', [10],
     ascii ''    5. El c'', [243],
     ascii ''digo debe ser autocontenido. No asumas archivos externos.'', [10],
     ascii ''    6. Aseg'', [250], ascii ''rate de manejar etiquetas, t'', [237],
     ascii ''tulos y leyendas para que la gr'', [225], ascii ''fica sea educativa.'', [10],
     ascii ''    7. IMPORTANTE: La app puede estar en modo CLARO u OSCURO. Por favor:'', [10],
     ascii ''       - Usa `fig.update_layout(paper_bgcolor='rgba(0,0,0,0)', plot_bgcolor='rgba(0,0,0,0)')` para fondo transparente.'',
     [10],
     ascii ''       - Configura `height=700` en update_layout para que la gr'', [225],
     ascii ''fica se vea grande y cl'', [225], ascii ''ra.'', [10],
     ascii ''       - Aseg'', [250], ascii ''rate que el texto y las l'', [237],
     ascii ''neas sean legibles en ambos fondos (o usa colores vibrantes).'', [10],
     ascii ''    8. No incluyas bloques markdown (```python ... ```). Devuelve SOLAMENTE el c'',
     [243], ascii ''digo puro.'', [10],
     ascii ''    '', [10],
     ascii ''    Ejemplo de estructura esperada:'', [10],
     ascii ''    import plotly.graph_objects as go'', [10],
     ascii ''    import numpy as np'', [10],
     ascii ''    x = np.linspace(0, 10, 100)'', [10],
     ascii ''    y = np.sin(x)'', [10],
     ascii ''    fig = go.Figure(data=go.Scatter(x=x, y=y))'', [10],
     ascii ''    fig.update_layout('', [10],
     ascii ''        title='Seno de x','', [10],
     ascii ''        paper_bgcolor='rgba(0,0,0,0)','', [10],
     ascii ''        plot_bgcolor='rgba(0,0,0,0)','', [10],
     ascii ''        height=700,'', [10],
     ascii ''        margin=dict(t=50, l=50, r=50, b=50)'', [10],
     ascii ''    )'', [10],
     ascii ''    '']"

definition retry_prompt :: "pystr \<Rightarrow> pystr \<Rightarrow> pystr" where
  "retry_prompt base error_context = concat
    [ [10],
     ascii ''        '', base, [10],
     ascii ''        '', [10],
     ascii ''        INTENTO ANTERIOR FALL'', [211], ascii '' CON ESTE ERROR:'', [10],
     ascii ''        '', error_context, [10],
     ascii ''        '', [10],
     ascii ''        Por favor corrige el c'', [243],
     ascii ''digo para solucionar el error.'', [10],
     ascii ''        '']"

text \<open>
  \<open>if error_context:\<close> is Python truthiness: \<open>None\<close> and the empty string both take
  the \<open>else\<close> branch.
\<close>

definition build_prompt :: "pystr \<Rightarrow> pystr option \<Rightarrow> pystr" where
  "build_prompt concept error_context =
     (case error_context of
        None \<Rightarrow> base_prompt concept
      | Some err \<Rightarrow>
          if err = [] then base_prompt concept
          else retry_prompt (base_prompt concept) err)"

text \<open>
  The clean-up of the response text:
  \<open>code.replace("```python", "").replace("```", "").strip()\<close>.
\<close>

definition fence :: pystr where
  "fence = ascii ''```''"

definition fence_python :: pystr where
  "fence_python = ascii ''```python''"

definition clean_code :: "pystr \<Rightarrow> pystr" where
  "clean_code code = strip (replace fence [] (replace fence_python [] code))"

text \<open>The number of backticks a string starts with.\<close>

definition ticks :: "pystr \<Rightarrow> nat" where
  "ticks s = length (takeWhile (\<lambda>c. c = 96) s)"

definition get_visualization_code ::
  "(pystr \<Rightarrow> py_exc + pystr) \<Rightarrow> pystr \<Rightarrow> pystr option \<Rightarrow> py_exc + pystr" where
  "get_visualization_code model concept error_context =
     (case model (build_prompt concept error_context) of
        Inr text \<Rightarrow> Inr (clean_code text)
      | Inl e \<Rightarrow>
          Inl (PyExc ''Exception'' (ascii ''Error generando c'' @ [243] @ ascii ''digo: '' @ exc_str e)))"

section \<open>\<open>execute_and_render\<close>\<close>

definition missing_fig_error :: py_exc where
  "missing_fig_error =
     PyExc ''ValueError''
       (ascii ''El c'' @ [243] @ ascii ''digo ejecutado no gener'' @ [243]
        @ ascii '' una variable '' @ [39] @ ascii ''fig'' @ [39] @ ascii ''.'')"

text \<open>
  The body of the \<open>try\<close> block: \<open>exec\<close> fills \<open>local_scope\<close>, then \<open>fig\<close> is looked
  up in it. The function itself adds \<open>except Exception as e: raise e\<close>: an instance
  of \<open>Exception\<close> is caught and raised again, anything else is not caught.
\<close>

definition execute_and_render_try ::
  "(pystr \<Rightarrow> py_raise + (pystr \<rightharpoonup> 'v)) \<Rightarrow> pystr \<Rightarrow> py_raise + 'v" where
  "execute_and_render_try exec code_str =
     (case exec code_str of
        Inl r \<Rightarrow> Inl r
      | Inr local_scope \<Rightarrow>
          (case local_scope (ascii ''fig'') of
             Some v \<Rightarrow> Inr v
           | None \<Rightarrow> Inl (Err missing_fig_error)))"

definition execute_and_render ::
  "(pystr \<Rightarrow> py_raise + (pystr \<rightharpoonup> 'v)) \<Rightarrow> pystr \<Rightarrow> py_raise + 'v" where
  "execute_and_render exec code_str =
     (case execute_and_render_try exec code_str of
        Inr v \<Rightarrow> Inr v
      | Inl (Err e) \<Rightarrow> Inl (Err e)
      | Inl (Exit x) \<Rightarrow> Inl (Exit x))"

section \<open>The page: guards, explanation and retry loop\<close>

text \<open>
  What the page shows, in the order the calls are made. The tabs and spinners only
  arrange the page and are not recorded. A call that displays a text returns; the chart
  call is given a value the executed script made and may refuse it, see \<open>plotly_chart\<close>.
\<close>

datatype 'v ui_event =
    StError pystr
  | StWarning pystr
  | StMarkdown pystr
  | StatusInfo pystr
  | StatusSuccess pystr
  | StExpanderCode pystr pystr
  | StPlotlyChart 'v

text \<open>
  The variables of the handler (\<open>attempt\<close>, \<open>success\<close>, \<open>last_error\<close>,
  \<open>code_to_run\<close>) and what it has shown (\<open>ui\<close>). Three more fields are logs the
  program does not keep and never reads: the argument of every call of
  \<open>get_explanation\<close>, the arguments of every call of \<open>get_visualization_code\<close>, and
  the text \<open>str(e)\<close> of every exception the loop caught.
\<close>

record 'v page =
  attempt :: nat
  success :: bool
  last_error :: "pystr option"
  code_to_run :: pystr
  ui :: "'v ui_event list"
  explain_calls :: "pystr list"
  gen_calls :: "(pystr \<times> pystr option) list"
  failures :: "pystr list"

definition attempt_label :: "nat \<Rightarrow> nat \<Rightarrow> pystr" where
  "attempt_label a max_retries =
     ascii ''Intento '' @ str_nat (a + 1) @ ascii ''/'' @ str_nat max_retries
     @ ascii '' generando c'' @ [243] @ ascii ''digo...''"

definition expander_label :: "nat \<Rightarrow> pystr" where
  "expander_label a =
     ascii ''Ver c'' @ [243] @ ascii ''digo generado (Intento '' @ str_nat (a + 1) @ ascii '')''"

definition success_message :: pystr where
  "success_message =
     [161] @ ascii ''Visualizaci'' @ [243] @ ascii ''n generada con '' @ [233] @ ascii ''xito!''"

definition failed_message :: "nat \<Rightarrow> pystr \<Rightarrow> pystr" where
  "failed_message a e =
     ascii ''Intento '' @ str_nat (a + 1) @ ascii '' fall'' @ [243] @ ascii '': '' @ e"

definition exhausted_message :: pystr where
  "exhausted_message =
     ascii ''No se pudo generar la visualizaci'' @ [243] @ ascii ''n despu'' @ [233]
     @ ascii ''s de varios intentos.''"

definition last_error_message :: "pystr option \<Rightarrow> pystr" where
  "last_error_message err = [218] @ ascii ''ltimo error: '' @ format_optional err"

text \<open>
  A part of the handler either runs to its end, with the page it leaves, or is left by
  something raised, with the page as it is at that point.
\<close>

type_synonym 'v run = "(py_raise \<times> 'v page) + 'v page"

definition page_of :: "'v run \<Rightarrow> 'v page" where
  "page_of r = (case r of Inl (x, p) \<Rightarrow> p | Inr p \<Rightarrow> p)"

definition raised_of :: "'v run \<Rightarrow> py_raise option" where
  "raised_of r = (case r of Inl (x, p) \<Rightarrow> Some x | Inr p \<Rightarrow> None)"

text \<open>A change of the page, applied to the page a run leaves, however the run ends.\<close>

definition map_page :: "('v page \<Rightarrow> 'v page) \<Rightarrow> 'v run \<Rightarrow> 'v run" where
  "map_page f r = (case r of Inl (x, p) \<Rightarrow> Inl (x, f p) | Inr p \<Rightarrow> Inr (f p))"

text \<open>
  The \<open>try\<close> block of the loop body. It stops at the first call that raises and hands
  over what was raised together with the variables as they are at that point.
\<close>

definition attempt_try :: "'v world \<Rightarrow> pystr \<Rightarrow> nat \<Rightarrow> 'v page \<Rightarrow> 'v run" where
  "attempt_try w concept max_retries st =
     (let st1 = st\<lparr>ui := ui st @ [StatusInfo (attempt_label (attempt st) max_retries)],
                   gen_calls := gen_calls st @ [(concept, last_error st)]\<rparr>
      in case get_visualization_code (generate_content w (attempt st + 1)) concept (last_error st) of
           Inl e \<Rightarrow> Inl (Err e, st1)
         | Inr code \<Rightarrow>
             (let st2 = st1\<lparr>code_to_run := code,
                            ui := ui st1 @ [StExpanderCode (expander_label (attempt st)) code]\<rparr>
              in case execute_and_render (py_exec w (attempt st)) code of
                   Inl r \<Rightarrow> Inl (r, st2)
                 | Inr fig \<Rightarrow>
                     (case plotly_chart w (attempt st) fig of
                        Some e \<Rightarrow> Inl (Err e, st2)
                      | None \<Rightarrow>
                          Inr (st2\<lparr>success := True,
                                   ui := ui st2 @ [StPlotlyChart fig, StatusSuccess success_message]\<rparr>))))"

text \<open>The body of the \<open>except Exception as e\<close> branch of the loop.\<close>

definition on_exception :: "py_exc \<Rightarrow> 'v page \<Rightarrow> 'v page" where
  "on_exception e st =
     st\<lparr>last_error := Some (exc_str e),
        ui := ui st @ [StWarning (failed_message (attempt st) (exc_str e))],
        attempt := attempt st + 1,
        failures := failures st @ [exc_str e]\<rparr>"

text \<open>
  One pass of the loop: the \<open>try\<close> block, and the \<open>except\<close> branch for an instance of
  \<open>Exception\<close>. Anything else that is raised leaves the loop.
\<close>

definition loop_body :: "'v world \<Rightarrow> pystr \<Rightarrow> nat \<Rightarrow> 'v page \<Rightarrow> 'v run" where
  "loop_body w concept max_retries st =
     (case attempt_try w concept max_retries st of
        Inr st' \<Rightarrow> Inr st'
      | Inl (Err e, st') \<Rightarrow> Inr (on_exception e st')
      | Inl (Exit x, st') \<Rightarrow> Inl (Exit x, st'))"

text \<open>\<open>while attempt < max_retries and not success\<close>.\<close>

function retry_loop :: "'v world \<Rightarrow> pystr \<Rightarrow> nat \<Rightarrow> 'v page \<Rightarrow> 'v run" where
  "retry_loop w concept max_retries st =
     (if attempt st < max_retries \<and> \<not> success st
      then (case loop_body w concept max_retries st of
              Inl raised \<Rightarrow> Inl raised
            | Inr st' \<Rightarrow> retry_loop w concept max_retries st')
      else Inr st)"
  by pat_completeness auto
termination
proof (relation "measure (\<lambda>(w, concept, max_retries, st).
                   if success st then 0 else Suc (max_retries - attempt st))")
  show "wf (measure (\<lambda>(w :: 'v world, concept :: pystr, max_retries, st :: 'v page).
                   if success st then 0 else Suc (max_retries - attempt st)))"
    by simp
next
  fix w :: "'v world" and concept :: pystr and max_retries :: nat and st st' :: "'v page"
  assume "attempt st < max_retries \<and> \<not> success st"
    and "loop_body w concept max_retries st = Inr st'"
  then show "((w, concept, max_retries, st'), (w, concept, max_retries, st))
             \<in> measure (\<lambda>(w, concept, max_retries, st).
                   if success st then 0 else Suc (max_retries - attempt st))"
    by (auto simp: loop_body_def attempt_try_def on_exception_def Let_def
             split: sum.splits option.splits py_raise.splits)
qed

declare retry_loop.simps [simp del]

text \<open>
  The same passes counted out: \<open>k\<close> passes of the loop body, one after the other,
  stopping when one is left by something raised.
\<close>

fun passes :: "'v world \<Rightarrow> pystr \<Rightarrow> nat \<Rightarrow> nat \<Rightarrow> 'v page \<Rightarrow> 'v run" where
  "passes w concept max_retries 0 st = Inr st"
| "passes w concept max_retries (Suc k) st =
     (case loop_body w concept max_retries st of
        Inl raised \<Rightarrow> Inl raised
      | Inr st' \<Rightarrow> passes w concept max_retries k st')"

text \<open>
  The variables as the handler sets them before the loop, on a page that already shows
  \<open>shown\<close> and has made the explanation calls \<open>explained\<close>.
\<close>

definition initial_page :: "'v ui_event list \<Rightarrow> pystr list \<Rightarrow> 'v page" where
  "initial_page shown explained =
     \<lparr>attempt = 0, success = False, last_error = None, code_to_run = [],
      ui = shown, explain_calls = explained, gen_calls = [], failures = []\<rparr>"

text \<open>The loop and the report that follows it (\<open>if not success:\<close>).\<close>

definition visualization_tab ::
  "'v world \<Rightarrow> pystr \<Rightarrow> nat \<Rightarrow> 'v ui_event list \<Rightarrow> pystr list \<Rightarrow> 'v run" where
  "visualization_tab w concept max_retries shown explained =
     (case retry_loop w concept max_retries (initial_page shown explained) of
        Inl raised \<Rightarrow> Inl raised
      | Inr st \<Rightarrow>
          Inr (if \<not> success st
               then st\<lparr>ui := ui st @ [StError exhausted_message,
                                      StError (last_error_message (last_error st))]\<rparr>
               else st))"

text \<open>
  What a click on the button does, given the texts of the two input fields. On the two
  paths that only show an error the loop variables are never set; the page then carries
  their initial values and empty logs.
\<close>

definition generar_visualizacion :: "'v world \<Rightarrow> pystr \<Rightarrow> pystr \<Rightarrow> 'v run" where
  "generar_visualizacion w concept api_key =
     (if concept = [] then
        Inr (initial_page [StError (ascii ''Por favor escribe un concepto.'')] [])
      else if api_key = [] then
        Inr (initial_page
               [StError (ascii ''Por favor configura tu API Key en la barra lateral.'')] [])
      else
        (case get_explanation (generate_content w 0) concept of
           Inl e \<Rightarrow> Inl (Err e, initial_page [] [concept])
         | Inr explanation \<Rightarrow>
             (let max_retries = 3
              in visualization_tab w concept max_retries [StMarkdown explanation] [concept])))"

section \<open>One attempt as a function of the error context\<close>

text \<open>
  What the three calls of attempt \<open>a\<close> come to when the generation is asked with the
  error context \<open>ec\<close>: the script and the figure, or what is raised. It reads the
  world only, not the page, and serves to say which exception an attempt raised.
\<close>

definition attempt_outcome ::
  "'v world \<Rightarrow> pystr \<Rightarrow> nat \<Rightarrow> pystr option \<Rightarrow> py_raise + (pystr \<times> 'v)" where
  "attempt_outcome w concept a ec =
     (case get_visualization_code (generate_content w (a + 1)) concept ec of
        Inl e \<Rightarrow> Inl (Err e)
      | Inr code \<Rightarrow>
          (case execute_and_render (py_exec w a) code of
             Inl r \<Rightarrow> Inl r
           | Inr fig \<Rightarrow>
               (case plotly_chart w a fig of
                  Some e \<Rightarrow> Inl (Err e)
                | None \<Rightarrow> Inr (code, fig))))"

section \<open>The invariant of the retry loop\<close>

text \<open>
  What holds of the variables and the logs before and after every pass of the loop: one
  recorded failure per counted attempt, one generation call per pass, every call made
  with the concept and with the text of the failure just before it (none for the first),
  every recorded failure the text of the exception that the attempt raised when asked
  with the logged error context, \<open>last_error\<close> holding the latest failure, and a warning
  on the page for every failure.
\<close>

definition feedback_inv :: "'v world \<Rightarrow> pystr \<Rightarrow> 'v page \<Rightarrow> bool" where
  "feedback_inv w concept st \<longleftrightarrow>
     length (failures st) = attempt st
     \<and> length (gen_calls st) = attempt st + (if success st then 1 else 0)
     \<and> (\<forall>k < length (gen_calls st).
           gen_calls st ! k = (concept, if k = 0 then None else Some (failures st ! (k - 1))))
     \<and> (\<forall>k < attempt st. \<exists>e.
           attempt_outcome w concept k (snd (gen_calls st ! k)) = Inl (Err e)
           \<and> failures st ! k = exc_str e)
     \<and> last_error st = (if attempt st = 0 then None else Some (failures st ! (attempt st - 1)))
     \<and> (\<forall>k < attempt st. StWarning (failed_message k (failures st ! k)) \<in> set (ui st))"

section \<open>A sample world\<close>

text \<open>
  Concrete values, a concrete interpreter, chart widget and models, on which the
  theorems below are run. \<open>sample_exec\<close> knows four programs and rejects every other
  text as a syntax error; \<open>sample_chart\<close> draws figures and refuses anything else.
\<close>

datatype py_val = IntVal int | FigureVal pystr

definition syntax_error :: py_exc where
  "syntax_error = PyExc ''SyntaxError'' (ascii ''invalid syntax (<string>, line 1)'')"

definition system_exit :: py_exc where
  "system_exit = PyExc ''SystemExit'' []"

definition sample_exec :: "pystr \<Rightarrow> py_raise + (pystr \<rightharpoonup> py_val)" where
  "sample_exec code =
     (if code = ascii ''fig = 1'' then Inr [ascii ''fig'' \<mapsto> IntVal 1]
      else if code = ascii ''Fig = 1'' then Inr [ascii ''Fig'' \<mapsto> IntVal 1]
      else if code = ascii ''fig = go.Figure()'' then Inr [ascii ''fig'' \<mapsto> FigureVal []]
      else if code = ascii ''raise SystemExit'' then Inl (Exit system_exit)
      else Inl (Err syntax_error))"

definition not_a_figure :: py_exc where
  "not_a_figure = PyExc ''PlotlyError'' (ascii ''not a figure'')"

definition sample_chart :: "py_val \<Rightarrow> py_exc option" where
  "sample_chart v = (case v of FigureVal title \<Rightarrow> None | IntVal n \<Rightarrow> Some not_a_figure)"

definition quota_error :: py_exc where
  "quota_error = PyExc ''ResourceExhausted'' (ascii ''429 quota exceeded'')"

text \<open>A model that always answers with a fenced, correct script.\<close>

definition good_world :: "py_val world" where
  "good_world =
     \<lparr>generate_content = (\<lambda>n prompt. Inr (ascii ''```python'' @ [10] @ ascii ''fig = go.Figure()'' @ [10] @ ascii ''```'')),
      py_exec = (\<lambda>a. sample_exec),
      plotly_chart = (\<lambda>a. sample_chart)\<rparr>"

text \<open>A model that always answers with a script that does not parse.\<close>

definition bad_world :: "py_val world" where
  "bad_world =
     \<lparr>generate_content = (\<lambda>n prompt. Inr (ascii ''def ('')),
      py_exec = (\<lambda>a. sample_exec),
      plotly_chart = (\<lambda>a. sample_chart)\<rparr>"

text \<open>A model whose every call fails.\<close>

definition down_world :: "py_val world" where
  "down_world =
     \<lparr>generate_content = (\<lambda>n prompt. Inl quota_error),
      py_exec = (\<lambda>a. sample_exec),
      plotly_chart = (\<lambda>a. sample_chart)\<rparr>"

text \<open>A model whose first code-generation call fails and whose later calls answer well.\<close>

definition flaky_world :: "py_val world" where
  "flaky_world =
     \<lparr>generate_content = (\<lambda>n prompt. if n = 1 then Inl quota_error
          else Inr (ascii ''```python'' @ [10] @ ascii ''fig = go.Figure()'' @ [10] @ ascii ''```'')),
      py_exec = (\<lambda>a. sample_exec),
      plotly_chart = (\<lambda>a. sample_chart)\<rparr>"

text \<open>A model that always answers with a script that binds \<open>fig\<close> to a number.\<close>

definition number_world :: "py_val world" where
  "number_world =
     \<lparr>generate_content = (\<lambda>n prompt. Inr (ascii ''fig = 1'')),
      py_exec = (\<lambda>a. sample_exec),
      plotly_chart = (\<lambda>a. sample_chart)\<rparr>"

text \<open>A model whose first script binds no \<open>fig\<close> and whose later answers are good.\<close>

definition repair_world :: "py_val world" where
  "repair_world =
     \<lparr>generate_content = (\<lambda>n prompt. if n = 1 then Inr (ascii ''Fig = 1'')
          else Inr (ascii ''```python'' @ [10] @ ascii ''fig = go.Figure()'' @ [10] @ ascii ''```'')),
      py_exec = (\<lambda>a. sample_exec),
      plotly_chart = (\<lambda>a. sample_chart)\<rparr>"

text \<open>A model that always answers with a script that ends the interpreter.\<close>

definition exit_world :: "py_val world" where
  "exit_world =
     \<lparr>generate_content = (\<lambda>n prompt. Inr (ascii ''raise SystemExit'')),
      py_exec = (\<lambda>a. sample_exec),
      plotly_chart = (\<lambda>a. sample_chart)\<rparr>"

section \<open>Observing a run\<close>

text \<open>
  The concept arguments of all the generation calls a click made, explanation first,
  whether the handler ran to its end or was left by something raised.
\<close>

definition concepts_passed :: "'v run \<Rightarrow> pystr list" where
  "concepts_passed r = explain_calls (page_of r) @ map fst (gen_calls (page_of r))"

section \<open>Lemmas about the clean-up of the response\<close>

lemma fence_eq: "fence = [96, 96, 96]"
  by (simp add: fence_def ascii_def)

lemma fence_python_eq: "fence_python = fence @ ascii ''python''"
  by (simp add: fence_def fence_python_def ascii_def)

lemma newline_not_in_fence_python: "10 \<notin> set fence_python"
  by (simp add: fence_python_def ascii_def)

lemma ticks_simps:
  "ticks [] = 0"
  "ticks (x # xs) = (if x = 96 then Suc (ticks xs) else 0)"
  by (simp_all add: ticks_def)

lemma prefix_two_ticks: "prefix [96, 96] s \<longleftrightarrow> 2 \<le> ticks s"
proof (cases s)
  case Nil
  then show ?thesis by (simp add: ticks_simps)
next
  case (Cons x xs)
  then show ?thesis by (cases xs) (auto simp: ticks_simps)
qed

lemma prefix_fence: "prefix fence s \<longleftrightarrow> 3 \<le> ticks s"
proof (cases s)
  case Nil
  then show ?thesis by (simp add: ticks_simps fence_eq)
next
  case (Cons x xs)
  then show ?thesis using prefix_two_ticks [of xs]
    by (auto simp: ticks_simps fence_eq)
qed

lemma replace_fence_Cons:
  "replace fence [] (x # xs) =
     (if prefix fence (x # xs) then replace fence [] (drop 2 xs) else x # replace fence [] xs)"
  by (simp add: fence_eq numeral_2_eq_2)

lemma ticks_replace_fence: "ticks (replace fence [] s) = ticks s mod 3"
proof (induction s rule: length_induct)
  case (1 s)
  show ?case
  proof (cases s)
    case Nil
    then show ?thesis by (simp add: ticks_simps fence_eq)
  next
    case (Cons x xs)
    show ?thesis
    proof (cases "prefix fence (x # xs)")
      case True
      then obtain t where t: "s = 96 # 96 # 96 # t"
        using Cons by (auto simp: fence_eq prefix_def)
      then have "ticks (replace fence [] t) = ticks t mod 3"
        using "1.IH" by simp
      then show ?thesis
        by (simp add: t fence_eq ticks_simps)
    next
      case False
      then have small: "ticks (x # xs) < 3" by (simp add: prefix_fence)
      have ih: "ticks (replace fence [] xs) = ticks xs mod 3"
        using "1.IH" Cons by simp
      show ?thesis
        using False small ih
        by (auto simp: Cons replace_fence_Cons ticks_simps simp del: replace.simps split: if_splits)
    qed
  qed
qed

lemma replace_fence_no_fence: "\<not> sublist fence (replace fence [] s)"
proof (induction s rule: length_induct)
  case (1 s)
  show ?case
  proof (cases s)
    case Nil
    then show ?thesis by (simp add: fence_eq)
  next
    case (Cons x xs)
    show ?thesis
    proof (cases "prefix fence (x # xs)")
      case True
      have "length (drop 2 xs) < length s" by (simp add: Cons)
      then have "\<not> sublist fence (replace fence [] (drop 2 xs))"
        using "1.IH" by blast
      then show ?thesis using True by (simp add: Cons replace_fence_Cons del: replace.simps)
    next
      case False
      have ih: "\<not> sublist fence (replace fence [] xs)"
        using "1.IH" Cons by simp
      have "\<not> prefix fence (x # replace fence [] xs)"
      proof
        assume p: "prefix fence (x # replace fence [] xs)"
        then have "3 \<le> ticks (x # replace fence [] xs)" by (simp add: prefix_fence)
        then have x: "x = 96" and "2 \<le> ticks (replace fence [] xs)"
          by (auto simp: ticks_simps split: if_splits)
        then have "2 \<le> ticks xs mod 3" by (simp add: ticks_replace_fence)
        then have "2 \<le> ticks xs" by (metis mod_less_eq_dividend order_trans)
        then have "3 \<le> ticks (x # xs)" using x by (simp add: ticks_simps)
        with False show False by (simp add: prefix_fence)
      qed
      with ih show ?thesis
        using False by (simp add: Cons replace_fence_Cons sublist_Cons_right del: replace.simps)
    qed
  qed
qed

lemma sublist_strip: "sublist (strip s) s"
proof -
  have "prefix (strip s) (dropWhile isspace s)"
    unfolding strip_def
    by (metis suffix_dropWhile suffix_to_prefix rev_rev_ident)
  then have "sublist (strip s) (dropWhile isspace s)" by (rule prefix_imp_sublist)
  moreover have "sublist (dropWhile isspace s) s"
    by (rule suffix_imp_sublist [OF suffix_dropWhile])
  ultimately show ?thesis by (rule sublist_order.order_trans)
qed

lemma clean_code_no_fence: "\<not> sublist fence (clean_code raw)"
proof
  assume "sublist fence (clean_code raw)"
  then have "sublist fence (replace fence [] (replace fence_python [] raw))"
    unfolding clean_code_def using sublist_strip sublist_order.order_trans by blast
  then show False by (simp add: replace_fence_no_fence)
qed

lemma strip_ends:
  assumes "strip s \<noteq> []"
  shows "\<not> isspace (hd (strip s))" and "\<not> isspace (last (strip s))"
proof -
  let ?t = "dropWhile isspace s"
  let ?u = "dropWhile isspace (rev ?t)"
  have s: "strip s = rev ?u" by (simp add: strip_def)
  with assms have u: "?u \<noteq> []" by simp
  then have t: "?t \<noteq> []" by (metis dropWhile.simps(1) rev.simps(1))
  have "\<not> isspace (hd ?u)" using u by (rule hd_dropWhile)
  then show "\<not> isspace (last (strip s))" using u by (simp add: s last_rev)
  have "suffix ?u (rev ?t)" by (rule suffix_dropWhile)
  then obtain p where "rev ?t = p @ ?u" by (auto simp: suffix_def)
  then have "last (rev ?t) = last ?u" using u by (metis last_appendR)
  then have "hd ?t = last ?u" using t by (simp add: last_rev)
  moreover have "\<not> isspace (hd ?t)" using t by (rule hd_dropWhile)
  ultimately show "\<not> isspace (hd (strip s))" using u by (simp add: s hd_rev)
qed

lemma strip_unchanged:
  assumes "s = [] \<or> (\<not> isspace (hd s) \<and> \<not> isspace (last s))"
  shows "strip s = s"
proof (cases "s = []")
  case True
  then show ?thesis by (simp add: strip_def)
next
  case False
  with assms have h: "\<not> isspace (hd s)" and l: "\<not> isspace (last s)" by auto
  have "dropWhile isspace s = s" using False h by (cases s) auto
  moreover have "dropWhile isspace (rev s) = rev s"
    using False l by (cases "rev s") (auto simp: last_rev [symmetric] hd_rev)
  ultimately show ?thesis by (simp add: strip_def)
qed

lemma strip_strip: "strip (strip s) = strip s"
  using strip_ends [of s] by (intro strip_unchanged) blast

lemma replace_unchanged:
  "old \<noteq> [] \<Longrightarrow> \<not> sublist old s \<Longrightarrow> replace old new s = s"
proof (induction s)
  case Nil
  then show ?case by simp
next
  case (Cons x xs)
  then have "\<not> prefix old (x # xs)" and "\<not> sublist old xs"
    by (auto simp: sublist_Cons_right)
  with Cons show ?case by simp
qed

lemma replace_at_front:
  "old \<noteq> [] \<Longrightarrow> replace old new (old @ rest) = new @ replace old new rest"
  by (cases old) simp_all

lemma fence_python_has_fence: "sublist fence_python s \<Longrightarrow> sublist fence s"
proof -
  assume "sublist fence_python s"
  moreover have "sublist fence fence_python" by (simp add: fence_python_eq)
  ultimately show ?thesis using sublist_order.order_trans by blast
qed

lemma clean_code_unchanged:
  assumes "\<not> sublist fence x" and "strip x = x"
  shows "clean_code x = x"
proof -
  have "\<not> sublist fence_python x" using assms(1) fence_python_has_fence by blast
  then have "replace fence_python [] x = x"
    by (intro replace_unchanged) (simp_all add: fence_python_def ascii_def)
  moreover have "replace fence [] x = x"
    using assms(1) by (intro replace_unchanged) (simp_all add: fence_eq)
  ultimately show ?thesis using assms(2) by (simp add: clean_code_def)
qed

lemma clean_code_clean_code: "clean_code (clean_code raw) = clean_code raw"
proof (rule clean_code_unchanged)
  show "\<not> sublist fence (clean_code raw)" by (rule clean_code_no_fence)
  show "strip (clean_code raw) = clean_code raw" by (simp add: clean_code_def strip_strip)
qed

text \<open>A fence-free text between two newlines, followed by the closing fence.\<close>

lemma no_fence_before_newline:
  assumes "\<not> sublist fence y"
  shows "\<not> prefix fence (y @ 10 # rest)"
proof
  assume "prefix fence (y @ 10 # rest)"
  then consider "prefix fence y" | us where "fence = y @ us" "prefix us (10 # rest)"
    by (auto simp: prefix_append)
  then show False
  proof cases
    case 1
    then show ?thesis using assms by auto
  next
    case 2
    show ?thesis
    proof (cases us)
      case Nil
      with 2 have "fence = y" by simp
      with assms show ?thesis by simp
    next
      case (Cons u us')
      with 2 have "fence = y @ 10 # us'" by (auto simp: prefix_def)
      then have "10 \<in> set fence" by (metis in_set_conv_decomp)
      then show ?thesis by (simp add: fence_eq)
    qed
  qed
qed

lemma replace_closing_fence:
  "\<not> sublist fence y \<Longrightarrow> replace fence [] (y @ 10 # fence) = y @ [10]"
proof (induction y)
  case Nil
  show ?case by (simp add: fence_eq)
next
  case (Cons a y)
  then have n: "\<not> sublist fence y" by (auto simp: sublist_Cons_right)
  have "\<not> prefix fence ((a # y) @ 10 # fence)"
    by (rule no_fence_before_newline [OF Cons.prems])
  then have "replace fence [] ((a # y) @ 10 # fence) = a # replace fence [] (y @ 10 # fence)"
    by (simp add: replace_fence_Cons del: replace.simps)
  then show ?case using Cons.IH [OF n] by simp
qed

lemma no_fence_python_in_body:
  assumes "\<not> sublist fence y"
  shows "\<not> sublist fence_python (y @ 10 # fence)"
proof
  assume "sublist fence_python (y @ 10 # fence)"
  then consider "sublist fence_python y" | "sublist fence_python (10 # fence)"
    | xs1 xs2 where "fence_python = xs1 @ xs2" "suffix xs1 y" "prefix xs2 (10 # fence)"
    by (auto simp: sublist_append)
  then show False
  proof cases
    case 1
    then show ?thesis using assms fence_python_has_fence by blast
  next
    case 2
    then have "length fence_python \<le> length (10 # fence)" by (rule sublist_length_le)
    then show ?thesis by (simp add: fence_python_def fence_def ascii_def)
  next
    case 3
    show ?thesis
    proof (cases xs2)
      case Nil
      with 3 have "suffix fence_python y" by simp
      then have "sublist fence_python y" by (rule suffix_imp_sublist)
      then show ?thesis using assms fence_python_has_fence by blast
    next
      case (Cons u us)
      with 3 have "fence_python = xs1 @ 10 # us" by (auto simp: prefix_def)
      then have "10 \<in> set fence_python" by (metis in_set_conv_decomp)
      then show ?thesis using newline_not_in_fence_python by simp
    qed
  qed
qed

lemma newline_keeps_fence_free: "\<not> sublist fence x \<Longrightarrow> \<not> sublist fence (10 # x)"
  by (simp add: sublist_Cons_right fence_eq)

lemma strip_Cons_space: "isspace c \<Longrightarrow> strip (c # s) = strip s"
  by (simp add: strip_def)

lemma strip_snoc_space: "isspace c \<Longrightarrow> strip (s @ [c]) = strip s"
proof (cases "\<forall>x \<in> set s. isspace x")
  case True
  assume c: "isspace c"
  have a: "dropWhile isspace (s @ [c]) = []"
    unfolding dropWhile_eq_Nil_conv using True c by auto
  have b: "dropWhile isspace s = []"
    unfolding dropWhile_eq_Nil_conv using True by auto
  show ?thesis by (simp only: strip_def a b)
next
  case False
  assume c: "isspace c"
  from False have "dropWhile isspace (s @ [c]) = dropWhile isspace s @ [c]"
    by (auto simp: dropWhile_append)
  with c show ?thesis by (simp add: strip_def)
qed

lemma isspace_newline: "isspace 10"
  by (simp add: isspace_def)

lemma clean_code_fence_free: "\<not> sublist fence x \<Longrightarrow> clean_code x = strip x"
proof -
  assume n: "\<not> sublist fence x"
  then have "\<not> sublist fence_python x" using fence_python_has_fence by blast
  then have "replace fence_python [] x = x"
    by (intro replace_unchanged) (simp_all add: fence_python_def ascii_def)
  moreover have "replace fence [] x = x"
    using n by (intro replace_unchanged) (simp_all add: fence_eq)
  ultimately show ?thesis by (simp add: clean_code_def)
qed

lemma clean_code_python_fenced_body:
  assumes "\<not> sublist fence y"
  shows "clean_code (fence_python @ y @ 10 # fence) = strip y"
proof -
  have "replace fence_python [] (fence_python @ y @ 10 # fence)
          = replace fence_python [] (y @ 10 # fence)"
    using replace_at_front [of fence_python "[]" "y @ 10 # fence"]
    by (simp add: fence_python_def ascii_def)
  also have "\<dots> = y @ 10 # fence"
    by (intro replace_unchanged no_fence_python_in_body [OF assms])
       (simp add: fence_python_def ascii_def)
  finally have "replace fence [] (replace fence_python [] (fence_python @ y @ 10 # fence))
          = y @ [10]"
    by (simp only: replace_closing_fence [OF assms])
  then show ?thesis
    by (simp add: clean_code_def strip_snoc_space isspace_newline)
qed

lemma prefix_python_first_line:
  assumes "prefix (ascii ''python'') (tag @ 10 # rest)"
  shows "prefix (ascii ''python'') tag"
proof -
  from assms consider "prefix (ascii ''python'') tag"
    | us where "ascii ''python'' = tag @ us" "prefix us (10 # rest)"
    by (auto simp: prefix_append)
  then show ?thesis
  proof cases
    case 1
    then show ?thesis .
  next
    case 2
    show ?thesis
    proof (cases us)
      case Nil
      with 2 show ?thesis by simp
    next
      case (Cons u us')
      with 2 have "ascii ''python'' = tag @ 10 # us'" by (auto simp: prefix_def)
      then have "10 \<in> set (ascii ''python'')" by (metis in_set_conv_decomp)
      then show ?thesis by (simp add: ascii_def)
    qed
  qed
qed

lemma no_fence_python_after_fence:
  assumes n: "\<not> sublist fence y" and h: "y = [] \<or> hd y \<noteq> 96"
    and p: "\<not> prefix (ascii ''python'') (y @ 10 # fence)"
  shows "\<not> sublist fence_python (fence @ y @ 10 # fence)"
proof
  assume "sublist fence_python (fence @ y @ 10 # fence)"
  then consider "sublist fence_python fence" | "sublist fence_python (y @ 10 # fence)"
    | xs1 xs2 where "fence_python = xs1 @ xs2" "suffix xs1 fence"
        "prefix xs2 (y @ 10 # fence)"
    by (auto simp: sublist_append)
  then show False
  proof cases
    case 1
    then have "length fence_python \<le> length fence" by (rule sublist_length_le)
    then show ?thesis by (simp add: fence_python_def fence_def ascii_def)
  next
    case 2
    then show ?thesis using no_fence_python_in_body [OF n] by simp
  next
    case 3
    have f: "fence_python = 96 # 96 # 96 # ascii ''python''"
      by (simp add: fence_python_def ascii_def)
    have yh: "\<not> prefix (96 # zs) (y @ 10 # fence)" for zs
      using h by (cases y) auto
    from 3(2) have "xs1 = [] \<or> xs1 = [96] \<or> xs1 = [96, 96] \<or> xs1 = [96, 96, 96]"
      by (auto simp: fence_eq suffix_Cons)
    moreover have "96 # 96 # 96 # ascii ''python'' = xs1 @ xs2"
      using 3(1) by (simp only: f)
    ultimately consider "xs1 = []" "xs2 = fence_python"
      | "xs1 = [96]" "xs2 = 96 # 96 # ascii ''python''"
      | "xs1 = [96, 96]" "xs2 = 96 # ascii ''python''"
      | "xs1 = [96, 96, 96]" "xs2 = ascii ''python''"
      by (auto simp: f)
    then show ?thesis
    proof cases
      case 1
      from 3(3) have "prefix (96 # 96 # 96 # ascii ''python'') (y @ 10 # fence)"
        unfolding 1 f .
      with yh show ?thesis by blast
    next
      case 2
      with 3(3) yh show ?thesis by simp
    next
      case 3
      with \<open>prefix xs2 (y @ 10 # fence)\<close> yh show ?thesis by simp
    next
      case 4
      with \<open>prefix xs2 (y @ 10 # fence)\<close> p show ?thesis by simp
    qed
  qed
qed

lemma clean_code_fenced_body:
  assumes "\<not> sublist fence y" and "y = [] \<or> hd y \<noteq> 96"
    and "\<not> prefix (ascii ''python'') (y @ 10 # fence)"
  shows "clean_code (fence @ y @ 10 # fence) = strip y"
proof -
  have "replace fence_python [] (fence @ y @ 10 # fence) = fence @ y @ 10 # fence"
    by (intro replace_unchanged no_fence_python_after_fence assms)
       (simp add: fence_python_def ascii_def)
  moreover have "replace fence [] (fence @ y @ 10 # fence) = replace fence [] (y @ 10 # fence)"
    using replace_at_front [of fence "[]" "y @ 10 # fence"] by (simp add: fence_eq)
  ultimately have "replace fence [] (replace fence_python [] (fence @ y @ 10 # fence))
          = y @ [10]"
    by (simp only: replace_closing_fence [OF assms(1)])
  then show ?thesis
    by (simp add: clean_code_def strip_snoc_space isspace_newline)
qed

lemma clean_code_tagged_fence:
  assumes "\<not> sublist fence (tag @ 10 # x)" and "tag \<noteq> []" and "hd tag \<noteq> 96"
    and "\<not> prefix (ascii ''python'') tag"
  shows "clean_code (fence @ tag @ [10] @ x @ [10] @ fence) = strip (tag @ [10] @ x)"
proof -
  have h: "tag @ 10 # x = [] \<or> hd (tag @ 10 # x) \<noteq> 96"
    using assms(2,3) by simp
  have p: "\<not> prefix (ascii ''python'') ((tag @ 10 # x) @ 10 # fence)"
    using prefix_python_first_line [of tag "x @ 10 # fence"] assms(4) by auto
  from clean_code_fenced_body [OF assms(1) h p] show ?thesis by simp
qed

section \<open>Lemmas about the loop body and the loop\<close>

lemma page_of_simps [simp]:
  "page_of (Inr p) = p" "page_of (Inl (x, p)) = p"
  by (simp_all add: page_of_def)

lemma raised_of_simps [simp]:
  "raised_of (Inr p) = None" "raised_of (Inl (x, p)) = Some x"
  by (simp_all add: raised_of_def)

lemma run_cases:
  obtains (Done) p where "r = Inr p"
    | (Caught) e p where "r = Inl (Err e, p)"
    | (Left) x p where "r = Inl (Exit x, p)"
proof (cases r)
  case (Inl a)
  obtain y p where a: "a = (y, p)" by (cases a)
  show ?thesis using Inl a that by (cases y) auto
next
  case (Inr p)
  then show ?thesis using that by auto
qed

text \<open>The \<open>try\<close> block: what it does to the page, and what it raises.\<close>

lemma attempt_try_page:
  "gen_calls (page_of (attempt_try w concept n st)) = gen_calls st @ [(concept, last_error st)]"
  "explain_calls (page_of (attempt_try w concept n st)) = explain_calls st"
  "attempt (page_of (attempt_try w concept n st)) = attempt st"
  "last_error (page_of (attempt_try w concept n st)) = last_error st"
  "failures (page_of (attempt_try w concept n st)) = failures st"
  "\<exists>u. ui (page_of (attempt_try w concept n st)) = ui st @ u"
  by (auto simp: attempt_try_def Let_def split: sum.splits option.splits)

lemma attempt_try_raises:
  "attempt_try w concept n st = Inl (r, st') \<Longrightarrow>
     attempt_outcome w concept (attempt st) (last_error st) = Inl r \<and> success st' = success st"
  by (auto simp: attempt_try_def attempt_outcome_def Let_def split: sum.splits option.splits)

lemma attempt_try_returns:
  "attempt_try w concept n st = Inr st' \<Longrightarrow>
     success st' \<and> (\<exists>code fig. attempt_outcome w concept (attempt st) (last_error st) = Inr (code, fig)
                        \<and> code_to_run st' = code)"
  by (auto simp: attempt_try_def attempt_outcome_def Let_def split: sum.splits option.splits)

lemma loop_body_returns:
  "attempt_try w concept n st = Inr st' \<Longrightarrow> loop_body w concept n st = Inr st'"
  by (simp add: loop_body_def)

lemma loop_body_catches:
  "attempt_try w concept n st = Inl (Err e, st') \<Longrightarrow>
     loop_body w concept n st = Inr (on_exception e st')"
  by (simp add: loop_body_def)

lemma loop_body_lets_through:
  "attempt_try w concept n st = Inl (Exit x, st') \<Longrightarrow>
     loop_body w concept n st = Inl (Exit x, st')"
  by (simp add: loop_body_def)

lemma loop_body_gen_calls:
  "gen_calls (page_of (loop_body w concept n st)) = gen_calls st @ [(concept, last_error st)]"
  using attempt_try_page(1) [of w concept n st]
  by (cases "attempt_try w concept n st" rule: run_cases)
     (simp_all add: loop_body_def on_exception_def)

lemma loop_body_explain_calls:
  "explain_calls (page_of (loop_body w concept n st)) = explain_calls st"
  using attempt_try_page(2) [of w concept n st]
  by (cases "attempt_try w concept n st" rule: run_cases)
     (simp_all add: loop_body_def on_exception_def)

text \<open>
  Every pass of the loop body succeeds, or goes through the except branch, or is left by
  something that is not an instance of \<open>Exception\<close>.
\<close>

lemma loop_body_outcome:
  "(\<exists>st'. loop_body w concept n st = Inr st'
      \<and> success st' \<and> attempt st' = attempt st \<and> failures st' = failures st
      \<and> last_error st' = last_error st \<and> (\<exists>u. ui st' = ui st @ u)
      \<and> (\<exists>code fig. attempt_outcome w concept (attempt st) (last_error st) = Inr (code, fig)))
   \<or> (\<exists>st' e. loop_body w concept n st = Inr st'
      \<and> success st' = success st \<and> attempt st' = Suc (attempt st)
      \<and> failures st' = failures st @ [exc_str e] \<and> last_error st' = Some (exc_str e)
      \<and> (\<exists>u. ui st' = ui st @ u @ [StWarning (failed_message (attempt st) (exc_str e))])
      \<and> attempt_outcome w concept (attempt st) (last_error st) = Inl (Err e))
   \<or> (\<exists>x st'. loop_body w concept n st = Inl (Exit x, st')
      \<and> attempt_outcome w concept (attempt st) (last_error st) = Inl (Exit x))"
proof (cases "attempt_try w concept n st" rule: run_cases)
  case (Done p)
  have "loop_body w concept n st = Inr p" by (rule loop_body_returns [OF Done])
  moreover have "success p"
    "\<exists>code fig. attempt_outcome w concept (attempt st) (last_error st) = Inr (code, fig)"
    using attempt_try_returns [OF Done] by auto
  moreover have "attempt p = attempt st" "failures p = failures st"
    "last_error p = last_error st" "\<exists>u. ui p = ui st @ u"
    using attempt_try_page [of w concept n st] by (simp_all add: Done)
  ultimately show ?thesis by blast
next
  case (Caught e p)
  have b: "loop_body w concept n st = Inr (on_exception e p)"
    by (rule loop_body_catches [OF Caught])
  have r: "attempt_outcome w concept (attempt st) (last_error st) = Inl (Err e)"
    "success p = success st"
    using attempt_try_raises [OF Caught] by simp_all
  have p: "attempt p = attempt st" "failures p = failures st"
    using attempt_try_page [of w concept n st] by (simp_all add: Caught)
  obtain u where u: "ui p = ui st @ u"
    using attempt_try_page(6) [of w concept n st] by (auto simp: Caught)
  have "success (on_exception e p) = success st"
    "attempt (on_exception e p) = Suc (attempt st)"
    "failures (on_exception e p) = failures st @ [exc_str e]"
    "last_error (on_exception e p) = Some (exc_str e)"
    "ui (on_exception e p) = ui st @ u @ [StWarning (failed_message (attempt st) (exc_str e))]"
    by (simp_all add: on_exception_def r p u)
  with b r(1) show ?thesis by blast
next
  case (Left x p)
  have "loop_body w concept n st = Inl (Exit x, p)"
    by (rule loop_body_lets_through [OF Left])
  moreover have "attempt_outcome w concept (attempt st) (last_error st) = Inl (Exit x)"
    using attempt_try_raises [OF Left] by simp
  ultimately show ?thesis by blast
qed

lemma feedback_inv_loop_body:
  assumes inv: "feedback_inv w concept st" and ns: "\<not> success st"
    and body: "loop_body w concept n st = Inr b"
  shows "feedback_inv w concept b"
proof -
  have g: "gen_calls b = gen_calls st @ [(concept, last_error st)]"
    using loop_body_gen_calls [of w concept n st] by (simp add: body)
  from inv have i1: "length (failures st) = attempt st"
    and i2: "length (gen_calls st) = attempt st + (if success st then 1 else 0)"
    and i3: "\<forall>k < length (gen_calls st).
           gen_calls st ! k = (concept, if k = 0 then None else Some (failures st ! (k - 1)))"
    and i4: "\<forall>k < attempt st. \<exists>e.
           attempt_outcome w concept k (snd (gen_calls st ! k)) = Inl (Err e)
           \<and> failures st ! k = exc_str e"
    and le: "last_error st = (if attempt st = 0 then None else Some (failures st ! (attempt st - 1)))"
    and i6: "\<forall>k < attempt st. StWarning (failed_message k (failures st ! k)) \<in> set (ui st)"
    unfolding feedback_inv_def by blast+
  have len: "length (failures st) = attempt st" "length (gen_calls st) = attempt st"
    using i1 i2 ns by simp_all
  have calls: "gen_calls st ! k = (concept, if k = 0 then None else Some (failures st ! (k - 1)))"
    if "k < attempt st" for k
    using i3 that len(2) by metis
  have raised: "\<exists>e. attempt_outcome w concept k (snd (gen_calls st ! k)) = Inl (Err e)
           \<and> failures st ! k = exc_str e" if "k < attempt st" for k
    using i4 that by blast
  have warn: "StWarning (failed_message k (failures st ! k)) \<in> set (ui st)"
    if "k < attempt st" for k
    using i6 that by blast
  have old: "gen_calls b ! k = gen_calls st ! k" if "k < attempt st" for k
    using that by (simp add: g nth_append len)
  have new: "gen_calls b ! attempt st = (concept, last_error st)"
    by (simp add: g nth_append len)
  have newcalls: "gen_calls b ! k = (concept, if k = 0 then None else Some (failures st ! (k - 1)))"
    if "k < Suc (attempt st)" for k
  proof (cases "k < attempt st")
    case True
    then show ?thesis using calls by (simp add: old)
  next
    case False
    with that have "k = attempt st" by simp
    then show ?thesis by (simp add: new le)
  qed
  from loop_body_outcome [of w concept n st] show ?thesis
  proof (elim disjE conjE exE)
    fix st' u
    assume "loop_body w concept n st = Inr st'"
    then have eq: "st' = b" using body by simp
    assume "success st'" "attempt st' = attempt st" "failures st' = failures st"
      "last_error st' = last_error st" "ui st' = ui st @ u"
    then have s: "success b" and at: "attempt b = attempt st" and fl: "failures b = failures st"
      and la: "last_error b = last_error st" and u: "ui b = ui st @ u"
      by (simp_all add: eq)
    have c1: "length (failures b) = attempt b"
      by (simp add: fl at len)
    have c2: "length (gen_calls b) = attempt b + (if success b then 1 else 0)"
      by (simp add: g s at len)
    have c3: "\<forall>k < length (gen_calls b).
        gen_calls b ! k = (concept, if k = 0 then None else Some (failures b ! (k - 1)))"
    proof (intro allI impI)
      fix k assume "k < length (gen_calls b)"
      then have "k < Suc (attempt st)" by (simp add: g len)
      then show "gen_calls b ! k = (concept, if k = 0 then None else Some (failures b ! (k - 1)))"
        using newcalls [of k] by (simp only: fl)
    qed
    have c4: "\<forall>k < attempt b. \<exists>e.
           attempt_outcome w concept k (snd (gen_calls b ! k)) = Inl (Err e)
           \<and> failures b ! k = exc_str e"
    proof (intro allI impI)
      fix k assume "k < attempt b"
      then have k: "k < attempt st" by (simp only: at)
      from raised [OF k] show "\<exists>e.
           attempt_outcome w concept k (snd (gen_calls b ! k)) = Inl (Err e)
           \<and> failures b ! k = exc_str e"
        by (simp only: old [OF k] fl)
    qed
    have c5: "last_error b = (if attempt b = 0 then None else Some (failures b ! (attempt b - 1)))"
      by (simp only: la at fl le)
    have c6: "\<forall>k < attempt b. StWarning (failed_message k (failures b ! k)) \<in> set (ui b)"
    proof (intro allI impI)
      fix k assume "k < attempt b"
      then have "k < attempt st" by (simp only: at)
      from warn [OF this] show "StWarning (failed_message k (failures b ! k)) \<in> set (ui b)"
        by (simp add: fl u)
    qed
    from c1 c2 c3 c4 c5 c6 show ?thesis
      unfolding feedback_inv_def by blast
  next
    fix st' e u
    assume "loop_body w concept n st = Inr st'"
    then have eq: "st' = b" using body by simp
    assume "success st' = success st" "attempt st' = Suc (attempt st)"
      "failures st' = failures st @ [exc_str e]" "last_error st' = Some (exc_str e)"
      "ui st' = ui st @ u @ [StWarning (failed_message (attempt st) (exc_str e))]"
      and out: "attempt_outcome w concept (attempt st) (last_error st) = Inl (Err e)"
    then have s: "success b = success st" and at: "attempt b = Suc (attempt st)"
      and fl: "failures b = failures st @ [exc_str e]" and la: "last_error b = Some (exc_str e)"
      and u: "ui b = ui st @ u @ [StWarning (failed_message (attempt st) (exc_str e))]"
      by (simp_all add: eq)
    have f: "(failures st @ [exc_str e]) ! k = failures st ! k" if "k < attempt st" for k
      using that by (simp add: nth_append len)
    have fnew: "(failures st @ [exc_str e]) ! attempt st = exc_str e"
      by (simp add: nth_append len)
    have c1: "length (failures b) = attempt b"
      by (simp add: fl at len)
    have c2: "length (gen_calls b) = attempt b + (if success b then 1 else 0)"
      by (simp add: g s at len ns)
    have c3: "\<forall>k < length (gen_calls b).
        gen_calls b ! k = (concept, if k = 0 then None else Some (failures b ! (k - 1)))"
    proof (intro allI impI)
      fix k assume "k < length (gen_calls b)"
      then have k: "k < Suc (attempt st)" by (simp add: g len)
      show "gen_calls b ! k = (concept, if k = 0 then None else Some (failures b ! (k - 1)))"
      proof (cases k)
        case 0
        then show ?thesis using newcalls [of 0] by simp
      next
        case (Suc j)
        with k have "j < attempt st" by simp
        then show ?thesis using newcalls [OF k] Suc by (simp add: fl f)
      qed
    qed
    have c4: "\<forall>k < attempt b. \<exists>e.
           attempt_outcome w concept k (snd (gen_calls b ! k)) = Inl (Err e)
           \<and> failures b ! k = exc_str e"
    proof (intro allI impI)
      fix k assume "k < attempt b"
      then have k: "k < Suc (attempt st)" by (simp only: at)
      show "\<exists>e. attempt_outcome w concept k (snd (gen_calls b ! k)) = Inl (Err e)
           \<and> failures b ! k = exc_str e"
      proof (cases "k < attempt st")
        case True
        from raised [OF True] show ?thesis
          by (simp only: old [OF True] fl f [OF True])
      next
        case False
        with k have "k = attempt st" by simp
        then show ?thesis using out by (simp add: new fl fnew)
      qed
    qed
    have c5: "last_error b = (if attempt b = 0 then None else Some (failures b ! (attempt b - 1)))"
      by (simp add: la at fl fnew)
    have c6: "\<forall>k < attempt b. StWarning (failed_message k (failures b ! k)) \<in> set (ui b)"
    proof (intro allI impI)
      fix k assume "k < attempt b"
      then have k: "k < Suc (attempt st)" by (simp only: at)
      show "StWarning (failed_message k (failures b ! k)) \<in> set (ui b)"
      proof (cases "k < attempt st")
        case True
        then show ?thesis using warn [OF True] by (simp add: fl u f)
      next
        case False
        with k have "k = attempt st" by simp
        then show ?thesis by (simp add: fl u fnew)
      qed
    qed
    from c1 c2 c3 c4 c5 c6 show ?thesis
      unfolding feedback_inv_def by blast
  next
    fix x st'
    assume "loop_body w concept n st = Inl (Exit x, st')"
    with body show ?thesis by simp
  qed
qed

lemma retry_loop_stop:
  "\<not> (attempt st < n \<and> \<not> success st) \<Longrightarrow> retry_loop w concept n st = Inr st"
  by (subst retry_loop.simps) auto

lemma retry_loop_step:
  "attempt st < n \<Longrightarrow> \<not> success st \<Longrightarrow> loop_body w concept n st = Inr st' \<Longrightarrow>
   retry_loop w concept n st = retry_loop w concept n st'"
  by (subst retry_loop.simps) auto

lemma retry_loop_left:
  "attempt st < n \<Longrightarrow> \<not> success st \<Longrightarrow> loop_body w concept n st = Inl raised \<Longrightarrow>
   retry_loop w concept n st = Inl raised"
  by (subst retry_loop.simps) auto

lemma feedback_inv_retry_loop:
  "feedback_inv w concept st \<Longrightarrow> retry_loop w concept n st = Inr fin \<Longrightarrow>
   feedback_inv w concept fin"
proof (induction w concept n st rule: retry_loop.induct)
  case (1 w concept n st)
  show ?case
  proof (cases "attempt st < n \<and> \<not> success st")
    case True
    show ?thesis
    proof (cases "loop_body w concept n st")
      case (Inl raised)
      with True "1.prems"(2) show ?thesis by (simp add: retry_loop_left)
    next
      case (Inr b)
      have "feedback_inv w concept b"
        using "1.prems"(1) True Inr by (blast intro: feedback_inv_loop_body)
      moreover have "retry_loop w concept n b = Inr fin"
        using True Inr "1.prems"(2) by (simp add: retry_loop_step)
      ultimately show ?thesis using "1.IH" [OF True Inr] by blast
    qed
  next
    case False
    then show ?thesis using "1.prems" by (simp add: retry_loop_stop)
  qed
qed

lemma feedback_inv_initial: "feedback_inv w concept (initial_page shown explained)"
  by (simp add: feedback_inv_def initial_page_def)

lemma retry_loop_initial_inv:
  "retry_loop w concept n (initial_page shown explained) = Inr fin \<Longrightarrow> feedback_inv w concept fin"
  by (rule feedback_inv_retry_loop [OF feedback_inv_initial])

lemma retry_loop_exit:
  "retry_loop w concept n st = Inr fin \<Longrightarrow> success fin \<or> n \<le> attempt fin"
proof (induction w concept n st rule: retry_loop.induct)
  case (1 w concept n st)
  show ?case
  proof (cases "attempt st < n \<and> \<not> success st")
    case True
    show ?thesis
    proof (cases "loop_body w concept n st")
      case (Inl raised)
      with True "1.prems" show ?thesis by (simp add: retry_loop_left)
    next
      case (Inr b)
      then have "retry_loop w concept n b = Inr fin"
        using True "1.prems" by (simp add: retry_loop_step)
      then show ?thesis using "1.IH" [OF True Inr] by blast
    qed
  next
    case False
    then show ?thesis using "1.prems" by (auto simp: retry_loop_stop)
  qed
qed

lemma loop_body_attempt_le:
  "attempt st < n \<Longrightarrow> loop_body w concept n st = Inr b \<Longrightarrow> attempt b \<le> n"
  using loop_body_outcome [of w concept n st] by auto

lemma retry_loop_attempt_le:
  "attempt st \<le> n \<Longrightarrow> retry_loop w concept n st = Inr fin \<Longrightarrow> attempt fin \<le> n"
proof (induction w concept n st rule: retry_loop.induct)
  case (1 w concept n st)
  show ?case
  proof (cases "attempt st < n \<and> \<not> success st")
    case True
    show ?thesis
    proof (cases "loop_body w concept n st")
      case (Inl raised)
      with True "1.prems" show ?thesis by (simp add: retry_loop_left)
    next
      case (Inr b)
      then have "retry_loop w concept n b = Inr fin"
        using True "1.prems" by (simp add: retry_loop_step)
      moreover have "attempt b \<le> n" using True Inr loop_body_attempt_le by blast
      ultimately show ?thesis using "1.IH" [OF True Inr] by blast
    qed
  next
    case False
    then show ?thesis using "1.prems" by (simp add: retry_loop_stop)
  qed
qed

lemma retry_loop_passes:
  "\<exists>k. k \<le> (if success st then 0 else n - attempt st)
       \<and> retry_loop w concept n st = passes w concept n k st
       \<and> length (gen_calls (page_of (retry_loop w concept n st))) = length (gen_calls st) + k"
proof (induction w concept n st rule: retry_loop.induct)
  case (1 w concept n st)
  show ?case
  proof (cases "attempt st < n \<and> \<not> success st")
    case True
    then have one: "Suc 0 \<le> (if success st then 0 else n - attempt st)" by auto
    show ?thesis
    proof (cases "loop_body w concept n st")
      case (Inl raised)
      have "retry_loop w concept n st = Inl raised"
        using True Inl by (simp add: retry_loop_left)
      moreover have "passes w concept n (Suc 0) st = Inl raised"
        by (simp add: Inl)
      moreover have "length (gen_calls (page_of (Inl raised :: 'a run))) = length (gen_calls st) + Suc 0"
        using loop_body_gen_calls [of w concept n st] by (simp add: Inl)
      ultimately show ?thesis using one by (intro exI [of _ "Suc 0"]) simp
    next
      case (Inr b)
      from "1.IH" [OF True Inr] obtain k where
        k: "k \<le> (if success b then 0 else n - attempt b)"
        and it: "retry_loop w concept n b = passes w concept n k b"
        and len: "length (gen_calls (page_of (retry_loop w concept n b))) = length (gen_calls b) + k"
        by blast
      have r: "retry_loop w concept n st = retry_loop w concept n b"
        using True Inr by (simp add: retry_loop_step)
      have gb: "length (gen_calls b) = Suc (length (gen_calls st))"
        using loop_body_gen_calls [of w concept n st] by (simp add: Inr)
      have "Suc k \<le> n - attempt st"
        using k True Inr loop_body_outcome [of w concept n st] by (auto split: if_splits)
      moreover have "retry_loop w concept n st = passes w concept n (Suc k) st"
        by (simp add: r it Inr)
      moreover have "length (gen_calls (page_of (retry_loop w concept n st)))
                       = length (gen_calls st) + Suc k"
        by (simp add: r len gb)
      ultimately show ?thesis using True by (intro exI [of _ "Suc k"]) simp
    qed
  next
    case False
    then have "retry_loop w concept n st = Inr st" by (rule retry_loop_stop)
    then show ?thesis by (intro exI [of _ 0]) simp
  qed
qed

lemma retry_loop_explain_calls:
  "explain_calls (page_of (retry_loop w concept n st)) = explain_calls st"
proof (induction w concept n st rule: retry_loop.induct)
  case (1 w concept n st)
  show ?case
  proof (cases "attempt st < n \<and> \<not> success st")
    case True
    show ?thesis
    proof (cases "loop_body w concept n st")
      case (Inl raised)
      then show ?thesis
        using True loop_body_explain_calls [of w concept n st] by (simp add: retry_loop_left)
    next
      case (Inr b)
      then show ?thesis
        using True "1.IH" [OF True Inr] loop_body_explain_calls [of w concept n st]
        by (simp add: retry_loop_step)
    qed
  next
    case False
    then show ?thesis by (simp add: retry_loop_stop)
  qed
qed

text \<open>Every generation call of the loop is made with the concept.\<close>

lemma retry_loop_gen_calls_concept:
  "\<forall>c \<in> fst ` set (gen_calls st). c = concept \<Longrightarrow>
   \<forall>c \<in> fst ` set (gen_calls (page_of (retry_loop w concept n st))). c = concept"
proof (induction w concept n st rule: retry_loop.induct)
  case (1 w concept n st)
  have b: "\<forall>c \<in> fst ` set (gen_calls (page_of (loop_body w concept n st))). c = concept"
    using "1.prems" by (auto simp: loop_body_gen_calls)
  show ?case
  proof (cases "attempt st < n \<and> \<not> success st")
    case True
    show ?thesis
    proof (cases "loop_body w concept n st")
      case (Inl raised)
      then show ?thesis using True b by (simp add: retry_loop_left)
    next
      case (Inr st')
      then show ?thesis using True "1.IH" [OF True Inr] b by (simp add: retry_loop_step)
    qed
  next
    case False
    then show ?thesis using "1.prems" by (simp add: retry_loop_stop)
  qed
qed

text \<open>When every attempt raises an instance of \<open>Exception\<close> the loop runs to its end without success.\<close>

lemma retry_loop_never_succeeds:
  assumes "\<forall>a<n. \<forall>ec. \<exists>e. attempt_outcome w concept a ec = Inl (Err e)"
    and "\<not> success st"
  shows "\<exists>fin. retry_loop w concept n st = Inr fin \<and> \<not> success fin"
  using assms
proof (induction w concept n st rule: retry_loop.induct)
  case (1 w concept n st)
  show ?case
  proof (cases "attempt st < n \<and> \<not> success st")
    case True
    then obtain e where e: "attempt_outcome w concept (attempt st) (last_error st) = Inl (Err e)"
      using "1.prems"(1) by blast
    from loop_body_outcome [of w concept n st] e
    obtain b where b: "loop_body w concept n st = Inr b" and s: "success b = success st"
      by auto
    have "\<exists>fin. retry_loop w concept n b = Inr fin \<and> \<not> success fin"
      using "1.IH" [OF True b "1.prems"(1)] s True by simp
    then show ?thesis using True b by (simp add: retry_loop_step)
  next
    case False
    then show ?thesis using "1.prems" by (simp add: retry_loop_stop)
  qed
qed

lemma attempt_outcome_execution_fails:
  assumes "\<forall>code. get_visualization_code (generate_content w (a + 1)) concept ec = Inr code
             \<longrightarrow> (\<exists>e. execute_and_render (py_exec w a) code = Inl (Err e))"
  shows "\<exists>e. attempt_outcome w concept a ec = Inl (Err e)"
proof (cases "get_visualization_code (generate_content w (a + 1)) concept ec")
  case (Inl e)
  then show ?thesis by (simp add: attempt_outcome_def)
next
  case (Inr code)
  with assms obtain e where "execute_and_render (py_exec w a) code = Inl (Err e)" by blast
  with Inr show ?thesis by (simp add: attempt_outcome_def)
qed

text \<open>The cases of one pass, from what the three calls answer.\<close>

lemma loop_body_success:
  assumes "get_visualization_code (generate_content w (attempt st + 1)) concept (last_error st) = Inr code"
    and "execute_and_render (py_exec w (attempt st)) code = Inr fig"
    and "plotly_chart w (attempt st) fig = None"
  shows "\<exists>b. loop_body w concept n st = Inr b
    \<and> success b \<and> attempt b = attempt st \<and> last_error b = last_error st
    \<and> failures b = failures st \<and> code_to_run b = code
    \<and> gen_calls b = gen_calls st @ [(concept, last_error st)]
    \<and> explain_calls b = explain_calls st
    \<and> ui b = ui st @ [StatusInfo (attempt_label (attempt st) n),
                      StExpanderCode (expander_label (attempt st)) code,
                      StPlotlyChart fig, StatusSuccess success_message]"
  using assms by (simp add: loop_body_def attempt_try_def)

lemma loop_body_failure:
  assumes "attempt_try w concept n st = Inl (Err e, st')"
  shows "\<exists>b. loop_body w concept n st = Inr b
    \<and> success b = success st \<and> attempt b = attempt st + 1
    \<and> last_error b = Some (exc_str e) \<and> failures b = failures st @ [exc_str e]
    \<and> gen_calls b = gen_calls st @ [(concept, last_error st)]
    \<and> ui b = ui st' @ [StWarning (failed_message (attempt st) (exc_str e))]"
proof -
  have "loop_body w concept n st = Inr (on_exception e st')"
    by (rule loop_body_catches [OF assms])
  moreover have "success st' = success st" using attempt_try_raises [OF assms] by simp
  moreover have "attempt st' = attempt st" "failures st' = failures st"
    "gen_calls st' = gen_calls st @ [(concept, last_error st)]"
    using attempt_try_page [of w concept n st] by (simp_all add: assms)
  ultimately show ?thesis by (simp add: on_exception_def)
qed

lemma attempt_try_generation_error:
  assumes "get_visualization_code (generate_content w (attempt st + 1)) concept (last_error st) = Inl e"
  shows "attempt_try w concept n st =
           Inl (Err e, st\<lparr>ui := ui st @ [StatusInfo (attempt_label (attempt st) n)],
                           gen_calls := gen_calls st @ [(concept, last_error st)]\<rparr>)"
  using assms by (simp add: attempt_try_def)

lemma attempt_try_execution_error:
  assumes "get_visualization_code (generate_content w (attempt st + 1)) concept (last_error st) = Inr code"
    and "execute_and_render (py_exec w (attempt st)) code = Inl r"
  shows "\<exists>st'. attempt_try w concept n st = Inl (r, st')
     \<and> ui st' = ui st @ [StatusInfo (attempt_label (attempt st) n),
                          StExpanderCode (expander_label (attempt st)) code]"
  using assms by (simp add: attempt_try_def)

lemma attempt_try_chart_error:
  assumes "get_visualization_code (generate_content w (attempt st + 1)) concept (last_error st) = Inr code"
    and "execute_and_render (py_exec w (attempt st)) code = Inr fig"
    and "plotly_chart w (attempt st) fig = Some e"
  shows "\<exists>st'. attempt_try w concept n st = Inl (Err e, st')
     \<and> ui st' = ui st @ [StatusInfo (attempt_label (attempt st) n),
                          StExpanderCode (expander_label (attempt st)) code]"
  using assms by (simp add: attempt_try_def)

lemma get_explanation_returns: "\<exists>text. get_explanation model concept = Inr text"
  by (simp add: get_explanation_def split: sum.splits)

lemma visualization_tab_calls:
  "gen_calls (page_of (visualization_tab w concept n shown explained))
     = gen_calls (page_of (retry_loop w concept n (initial_page shown explained)))"
  "explain_calls (page_of (visualization_tab w concept n shown explained)) = explained"
  using retry_loop_explain_calls [of w concept n "initial_page shown explained"]
  by (cases "retry_loop w concept n (initial_page shown explained)" rule: run_cases;
      simp add: visualization_tab_def initial_page_def)+

lemma generar_visualizacion_cases:
  "generar_visualizacion w concept api_key =
     (if concept = [] then
        Inr (initial_page [StError (ascii ''Por favor escribe un concepto.'')] [])
      else if api_key = [] then
        Inr (initial_page
               [StError (ascii ''Por favor configura tu API Key en la barra lateral.'')] [])
      else visualization_tab w concept 3
                  [StMarkdown (projr (get_explanation (generate_content w 0) concept))] [concept])"
  using get_explanation_returns [of "generate_content w 0" concept]
  by (auto simp: generar_visualizacion_def)

lemma retry_loop_first_pass_succeeds:
  assumes "0 < n" and "attempt st = 0" and "\<not> success st"
    and "loop_body w concept n st = Inr b" and "success b"
  shows "retry_loop w concept n st = Inr b"
  using assms by (simp add: retry_loop_step [of st n w concept b] retry_loop_stop)

lemma visualization_tab_first_pass:
  assumes "0 < n"
    and "get_visualization_code (generate_content w 1) concept None = Inr code"
    and "execute_and_render (py_exec w 0) code = Inr fig"
    and "plotly_chart w 0 fig = None"
  shows "\<exists>b. visualization_tab w concept n shown explained = Inr b
    \<and> loop_body w concept n (initial_page shown explained) = Inr b
    \<and> success b \<and> attempt b = 0 \<and> last_error b = None \<and> failures b = []
    \<and> code_to_run b = code \<and> gen_calls b = [(concept, None)]
    \<and> ui b = shown @ [StatusInfo (attempt_label 0 n), StExpanderCode (expander_label 0) code,
                       StPlotlyChart fig, StatusSuccess success_message]"
proof -
  let ?i = "initial_page shown explained :: 'a page"
  have i: "attempt ?i = 0" "\<not> success ?i" "last_error ?i = None" "gen_calls ?i = []"
    "failures ?i = []" "ui ?i = shown"
    by (simp_all add: initial_page_def)
  have g: "get_visualization_code (generate_content w (attempt ?i + 1)) concept (last_error ?i) = Inr code"
    using assms(2) by (simp add: i)
  have e: "execute_and_render (py_exec w (attempt ?i)) code = Inr fig"
    using assms(3) by (simp add: i)
  have c: "plotly_chart w (attempt ?i) fig = None"
    using assms(4) by (simp add: i)
  from loop_body_success [OF g e c, of n] obtain b where
    b: "loop_body w concept n ?i = Inr b" "success b" "attempt b = attempt ?i"
      "last_error b = last_error ?i" "failures b = failures ?i" "code_to_run b = code"
      "gen_calls b = gen_calls ?i @ [(concept, last_error ?i)]"
      "ui b = ui ?i @ [StatusInfo (attempt_label (attempt ?i) n),
                      StExpanderCode (expander_label (attempt ?i)) code,
                      StPlotlyChart fig, StatusSuccess success_message]"
    by blast
  have "retry_loop w concept n ?i = Inr b"
    by (rule retry_loop_first_pass_succeeds [OF assms(1) i(1) i(2) b(1) b(2)])
  then have "visualization_tab w concept n shown explained = Inr b"
    using b(2) by (simp add: visualization_tab_def)
  then show ?thesis using b by (simp add: i)
qed

lemma map_page_simps [simp]:
  "map_page f (Inr p) = Inr (f p)" "map_page f (Inl (x, p)) = Inl (x, f p)"
  by (simp_all add: map_page_def)

lemma map_page_observed [simp]:
  "page_of (map_page f r) = f (page_of r)" "raised_of (map_page f r) = raised_of r"
  by (cases r rule: run_cases; simp)+

text \<open>When every attempt raises an instance of \<open>Exception\<close> all attempts are used up.\<close>

lemma retry_loop_exhausts:
  assumes "\<forall>a<n. \<forall>ec. \<exists>e. attempt_outcome w concept a ec = Inl (Err e)"
  shows "\<exists>fin. retry_loop w concept n (initial_page shown explained) = Inr fin
           \<and> \<not> success fin \<and> attempt fin = n \<and> feedback_inv w concept fin"
proof -
  obtain fin where r: "retry_loop w concept n (initial_page shown explained) = Inr fin"
    and ns: "\<not> success fin"
    using retry_loop_never_succeeds [OF assms, of "initial_page shown explained"]
    by (auto simp: initial_page_def)
  have "attempt fin \<le> n"
    using retry_loop_attempt_le [OF _ r] by (simp add: initial_page_def)
  with ns retry_loop_exit [OF r] have "attempt fin = n" by auto
  with r ns retry_loop_initial_inv [OF r] show ?thesis by blast
qed

text \<open>The explanation call and what is already on the page do not steer the loop.\<close>

lemma loop_body_ignores_call_0:
  "loop_body (w\<lparr>generate_content := (generate_content w)(0 := g)\<rparr>) concept n st
     = loop_body w concept n st"
proof -
  let ?w = "w\<lparr>generate_content := (generate_content w)(0 := g)\<rparr>"
  have a: "generate_content ?w (attempt st + 1) = generate_content w (attempt st + 1)"
    by simp
  have b: "py_exec ?w = py_exec w" "plotly_chart ?w = plotly_chart w"
    by simp_all
  show ?thesis
    unfolding loop_body_def attempt_try_def by (simp only: a b)
qed

lemma retry_loop_ignores_call_0:
  "retry_loop (w\<lparr>generate_content := (generate_content w)(0 := g)\<rparr>) concept n st
     = retry_loop w concept n st"
proof (induction w concept n st rule: retry_loop.induct)
  case (1 w concept n st)
  let ?w = "w\<lparr>generate_content := (generate_content w)(0 := g)\<rparr>"
  have b: "loop_body ?w concept n st = loop_body w concept n st"
    by (rule loop_body_ignores_call_0)
  show ?case
  proof (cases "attempt st < n \<and> \<not> success st")
    case True
    then have c1: "attempt st < n" and c2: "\<not> success st" by simp_all
    show ?thesis
    proof (cases "loop_body w concept n st")
      case (Inl raised)
      have "loop_body ?w concept n st = Inl raised" by (simp only: b Inl)
      then have x: "retry_loop ?w concept n st = Inl raised"
        by (rule retry_loop_left [OF c1 c2])
      have y: "retry_loop w concept n st = Inl raised"
        by (rule retry_loop_left [OF c1 c2 Inl])
      show ?thesis by (simp only: x y)
    next
      case (Inr st')
      have "loop_body ?w concept n st = Inr st'" by (simp only: b Inr)
      then have "retry_loop ?w concept n st = retry_loop ?w concept n st'"
        by (rule retry_loop_step [OF c1 c2])
      also have "\<dots> = retry_loop w concept n st'"
        by (rule "1.IH" [OF True Inr])
      also have "\<dots> = retry_loop w concept n st"
        by (rule retry_loop_step [OF c1 c2 Inr, symmetric])
      finally show ?thesis .
    qed
  next
    case False
    show ?thesis by (simp only: retry_loop_stop [OF False])
  qed
qed

lemma loop_body_ui_prefix:
  "loop_body w concept n (st\<lparr>ui := a @ ui st\<rparr>)
     = map_page (\<lambda>p. p\<lparr>ui := a @ ui p\<rparr>) (loop_body w concept n st)"
proof (cases "get_visualization_code (generate_content w (attempt st + 1)) concept (last_error st)")
  case (Inl e)
  then show ?thesis
    by (simp add: loop_body_def attempt_try_def on_exception_def)
next
  case gen: (Inr code)
  show ?thesis
  proof (cases "execute_and_render (py_exec w (attempt st)) code")
    case (Inl r)
    with gen show ?thesis
      by (cases r) (simp_all add: loop_body_def attempt_try_def on_exception_def)
  next
    case ex: (Inr fig)
    show ?thesis
    proof (cases "plotly_chart w (attempt st) fig")
      case None
      with gen ex show ?thesis
        by (simp add: loop_body_def attempt_try_def)
    next
      case (Some e)
      with gen ex show ?thesis
        by (simp add: loop_body_def attempt_try_def on_exception_def)
    qed
  qed
qed

lemma retry_loop_ui_prefix:
  "retry_loop w concept n (st\<lparr>ui := a @ ui st\<rparr>)
     = map_page (\<lambda>p. p\<lparr>ui := a @ ui p\<rparr>) (retry_loop w concept n st)"
proof (induction w concept n st rule: retry_loop.induct)
  case (1 w concept n st)
  let ?st = "st\<lparr>ui := a @ ui st\<rparr>"
  note b = loop_body_ui_prefix [where w = w and concept = concept and n = n and st = st and a = a]
  show ?case
  proof (cases "attempt st < n \<and> \<not> success st")
    case True
    then have c: "attempt ?st < n" "\<not> success ?st" by simp_all
    show ?thesis
    proof (cases "loop_body w concept n st" rule: run_cases)
      case (Done p)
      have "retry_loop w concept n ?st = retry_loop w concept n (p\<lparr>ui := a @ ui p\<rparr>)"
        using c b by (simp add: Done retry_loop_step [OF c])
      also have "\<dots> = map_page (\<lambda>p. p\<lparr>ui := a @ ui p\<rparr>) (retry_loop w concept n p)"
        by (rule "1.IH" [OF True Done])
      also have "retry_loop w concept n p = retry_loop w concept n st"
        using True Done by (simp add: retry_loop_step)
      finally show ?thesis .
    next
      case (Caught e p)
      have "retry_loop w concept n ?st = Inl (Err e, p\<lparr>ui := a @ ui p\<rparr>)"
        using b by (simp add: Caught retry_loop_left [OF c])
      moreover have "retry_loop w concept n st = Inl (Err e, p)"
        using True Caught by (simp add: retry_loop_left)
      ultimately show ?thesis by simp
    next
      case (Left x p)
      have "retry_loop w concept n ?st = Inl (Exit x, p\<lparr>ui := a @ ui p\<rparr>)"
        using b by (simp add: Left retry_loop_left [OF c])
      moreover have "retry_loop w concept n st = Inl (Exit x, p)"
        using True Left by (simp add: retry_loop_left)
      ultimately show ?thesis by simp
    qed
  next
    case False
    then show ?thesis by (simp add: retry_loop_stop)
  qed
qed

lemma visualization_tab_ui_prefix:
  "visualization_tab w concept n a explained
     = map_page (\<lambda>p. p\<lparr>ui := a @ ui p\<rparr>) (visualization_tab w concept n [] explained)"
proof -
  have "initial_page a explained = (initial_page [] explained)\<lparr>ui := a @ ui (initial_page [] explained)\<rparr>"
    by (simp add: initial_page_def)
  then have r: "retry_loop w concept n (initial_page a explained)
     = map_page (\<lambda>p. p\<lparr>ui := a @ ui p\<rparr>) (retry_loop w concept n (initial_page [] explained))"
    by (simp only: retry_loop_ui_prefix)
  show ?thesis
    unfolding visualization_tab_def r
    by (cases "retry_loop w concept n (initial_page [] explained)" rule: run_cases) simp_all
qed

lemma visualization_tab_ignores_call_0:
  "visualization_tab (w\<lparr>generate_content := (generate_content w)(0 := g)\<rparr>) concept n shown explained
     = visualization_tab w concept n shown explained"
  by (simp add: visualization_tab_def retry_loop_ignores_call_0)

text \<open>A script that leaves the interpreter on the first pass leaves the loop and the tab.\<close>

lemma visualization_tab_first_pass_exit:
  assumes "0 < n"
    and "get_visualization_code (generate_content w 1) concept None = Inr code"
    and "execute_and_render (py_exec w 0) code = Inl (Exit x)"
  shows "\<exists>p. visualization_tab w concept n shown explained = Inl (Exit x, p)
    \<and> retry_loop w concept n (initial_page shown explained) = Inl (Exit x, p)
    \<and> attempt p = 0 \<and> \<not> success p \<and> last_error p = None \<and> failures p = []
    \<and> gen_calls p = [(concept, None)]
    \<and> ui p = shown @ [StatusInfo (attempt_label 0 n), StExpanderCode (expander_label 0) code]"
proof -
  let ?i = "initial_page shown explained :: 'a page"
  have i: "attempt ?i = 0" "\<not> success ?i" "last_error ?i = None" "failures ?i = []"
    "gen_calls ?i = []" "ui ?i = shown"
    by (simp_all add: initial_page_def)
  have g: "get_visualization_code (generate_content w (attempt ?i + 1)) concept (last_error ?i) = Inr code"
    using assms(2) by (simp add: i)
  have e: "execute_and_render (py_exec w (attempt ?i)) code = Inl (Exit x)"
    using assms(3) by (simp add: i)
  from attempt_try_execution_error [OF g e, of n] obtain p
    where t: "attempt_try w concept n ?i = Inl (Exit x, p)"
      and u: "ui p = ui ?i @ [StatusInfo (attempt_label (attempt ?i) n),
                               StExpanderCode (expander_label (attempt ?i)) code]"
    by blast
  have b: "loop_body w concept n ?i = Inl (Exit x, p)"
    by (rule loop_body_lets_through [OF t])
  have c: "attempt ?i < n" using assms(1) by (simp add: i)
  have r: "retry_loop w concept n ?i = Inl (Exit x, p)"
    by (rule retry_loop_left [OF c i(2) b])
  have v: "visualization_tab w concept n shown explained = Inl (Exit x, p)"
    by (simp add: visualization_tab_def r)
  have f: "attempt p = 0" "last_error p = None" "failures p = []" "gen_calls p = [(concept, None)]"
    using attempt_try_page(3,4,5,1) [of w concept n ?i] by (simp_all add: t i)
  have s: "\<not> success p"
    using attempt_try_raises [OF t] by (simp add: i)
  show ?thesis
    using v r f s u by (simp add: i)
qed

lemma list_of_three: "length xs = 3 \<Longrightarrow> xs = [xs ! 0, xs ! 1, xs ! 2]"
  by (auto simp: numeral_3_eq_3 length_Suc_conv)

section \<open>Evaluating the sample world\<close>

lemma clean_def_paren: "clean_code (ascii ''def ('') = ascii ''def (''"
  by (simp add: clean_code_def fence_def fence_python_def strip_def isspace_def ascii_def)

lemma clean_number_script: "clean_code (ascii ''fig = 1'') = ascii ''fig = 1''"
  by (simp add: clean_code_def fence_def fence_python_def strip_def isspace_def ascii_def)

lemma clean_exit_script: "clean_code (ascii ''raise SystemExit'') = ascii ''raise SystemExit''"
  by (simp add: clean_code_def fence_def fence_python_def strip_def isspace_def ascii_def)

lemma sample_exec_def_paren:
  "execute_and_render sample_exec (ascii ''def ('') = Inl (Err syntax_error)"
  by (simp add: execute_and_render_def execute_and_render_try_def sample_exec_def ascii_def)

lemma sample_exec_figure:
  "execute_and_render sample_exec (ascii ''fig = go.Figure()'') = Inr (FigureVal [])"
  by (simp add: execute_and_render_def execute_and_render_try_def sample_exec_def ascii_def)

lemma sample_exec_number:
  "execute_and_render sample_exec (ascii ''fig = 1'') = Inr (IntVal 1)"
  by (simp add: execute_and_render_def execute_and_render_try_def sample_exec_def)

lemma sample_exec_exit:
  "execute_and_render sample_exec (ascii ''raise SystemExit'') = Inl (Exit system_exit)"
  by (simp add: execute_and_render_def execute_and_render_try_def sample_exec_def ascii_def)

lemma bad_world_generates:
  "get_visualization_code (generate_content bad_world n) concept ec = Inr (ascii ''def ('')"
  by (simp add: get_visualization_code_def bad_world_def clean_def_paren)

lemma number_world_generates:
  "get_visualization_code (generate_content number_world n) concept ec = Inr (ascii ''fig = 1'')"
  by (simp add: get_visualization_code_def number_world_def clean_number_script)

lemma exit_world_generates:
  "get_visualization_code (generate_content exit_world n) concept ec
     = Inr (ascii ''raise SystemExit'')"
  by (simp add: get_visualization_code_def exit_world_def clean_exit_script)

lemma good_world_generates:
  "get_visualization_code (generate_content good_world n) concept ec
     = Inr (ascii ''fig = go.Figure()'')"
  by (simp add: get_visualization_code_def good_world_def clean_code_def fence_def
        fence_python_def strip_def isspace_def ascii_def)

lemma bad_world_outcome: "attempt_outcome bad_world concept a ec = Inl (Err syntax_error)"
  by (simp add: attempt_outcome_def bad_world_generates)
     (simp add: bad_world_def sample_exec_def_paren)

lemma number_world_outcome: "attempt_outcome number_world concept a ec = Inl (Err not_a_figure)"
  by (simp add: attempt_outcome_def number_world_generates)
     (simp add: number_world_def sample_exec_number sample_chart_def)

text \<open>
  The scenario of a repaired script: the first script binds no \<open>fig\<close>, the second
  call receives the missing-output text and answers with a good script.
\<close>

lemma repaired_on_second_attempt:
  "\<exists>fin. visualization_tab repair_world (ascii ''Normal Distribution'') 3 [] [] = Inr fin
   \<and> success fin \<and> attempt fin = 1
   \<and> failures fin = [exc_str missing_fig_error]
   \<and> gen_calls fin = [(ascii ''Normal Distribution'', None),
                      (ascii ''Normal Distribution'', Some (exc_str missing_fig_error))]
   \<and> code_to_run fin = ascii ''fig = go.Figure()''"
proof -
  let ?c = "ascii ''Normal Distribution''"
  let ?s0 = "initial_page [] [] :: py_val page"
  have i: "attempt ?s0 = 0" "\<not> success ?s0" "last_error ?s0 = None" "failures ?s0 = []"
    "gen_calls ?s0 = []"
    by (simp_all add: initial_page_def)
  have g0: "get_visualization_code (generate_content repair_world (attempt ?s0 + 1)) ?c (last_error ?s0)
             = Inr (ascii ''Fig = 1'')"
    by (simp add: i get_visualization_code_def repair_world_def clean_code_def fence_def
          fence_python_def strip_def isspace_def ascii_def)
  have e0: "execute_and_render (py_exec repair_world (attempt ?s0)) (ascii ''Fig = 1'')
             = Inl (Err missing_fig_error)"
    by (simp add: repair_world_def execute_and_render_def execute_and_render_try_def
          sample_exec_def ascii_def)
  from attempt_try_execution_error [OF g0 e0, of 3] obtain st'
    where "attempt_try repair_world ?c 3 ?s0 = Inl (Err missing_fig_error, st')" by blast
  from loop_body_failure [OF this] obtain s1
    where b1: "loop_body repair_world ?c 3 ?s0 = Inr s1"
      and s1: "attempt s1 = 1" "\<not> success s1" "last_error s1 = Some (exc_str missing_fig_error)"
        "failures s1 = [exc_str missing_fig_error]" "gen_calls s1 = [(?c, None)]"
    using i by auto
  have "get_visualization_code (generate_content repair_world (1 + 1)) ?c
            (Some (exc_str missing_fig_error)) = Inr (ascii ''fig = go.Figure()'')"
    by (simp add: get_visualization_code_def repair_world_def clean_code_def fence_def
          fence_python_def strip_def isspace_def ascii_def)
  then have g1: "get_visualization_code (generate_content repair_world (attempt s1 + 1)) ?c
            (last_error s1) = Inr (ascii ''fig = go.Figure()'')"
    by (simp only: s1)
  have e1: "execute_and_render (py_exec repair_world (attempt s1)) (ascii ''fig = go.Figure()'')
             = Inr (FigureVal [])"
    by (simp add: repair_world_def sample_exec_figure)
  have c1: "plotly_chart repair_world (attempt s1) (FigureVal []) = None"
    by (simp add: repair_world_def sample_chart_def)
  from loop_body_success [OF g1 e1 c1, of 3] obtain s2
    where b2: "loop_body repair_world ?c 3 s1 = Inr s2"
      and s2: "success s2" "attempt s2 = 1" "failures s2 = [exc_str missing_fig_error]"
        "code_to_run s2 = ascii ''fig = go.Figure()''"
        "gen_calls s2 = [(?c, None), (?c, Some (exc_str missing_fig_error))]"
    using s1 by auto
  have "retry_loop repair_world ?c 3 ?s0 = retry_loop repair_world ?c 3 s1"
    using i b1 by (simp add: retry_loop_step)
  also have "\<dots> = retry_loop repair_world ?c 3 s2"
    using s1 b2 by (simp add: retry_loop_step)
  also have "\<dots> = Inr s2"
    using s2(1) by (simp add: retry_loop_stop)
  finally have "visualization_tab repair_world ?c 3 [] [] = Inr s2"
    using s2(1) by (simp add: visualization_tab_def)
  then show ?thesis
    using s2 by simp
qed

section \<open>The claims\<close>

text \<open>
  C1, as the code has it. \<open>execute_and_render\<close> on a text with a syntax error raises
  to its caller: it returns no failure value.
\<close>

theorem execute_and_render_raises_counterexample:
  "execute_and_render sample_exec (ascii ''def ('') = Inl (Err syntax_error)"
  by (simp add: execute_and_render_def execute_and_render_try_def sample_exec_def ascii_def)

text \<open>
  C1, amended. \<open>execute_and_render\<close> passes on to its caller whatever the execution
  raises, unchanged, and raises the missing-output error when no \<open>fig\<close> is bound. When
  what is raised is an instance of \<open>Exception\<close>, the caller, the retry loop, catches
  it: the text \<open>str(e)\<close> becomes \<open>last_error\<close>, is recorded and shown in a warning,
  and one attempt is counted. When it is not (\<open>SystemExit\<close>, \<open>KeyboardInterrupt\<close>),
  the \<open>except Exception\<close> clause of the loop does not catch it either: the pass and
  the loop are left by it, with no attempt counted and no failure text recorded.
\<close>

theorem execute_and_render_reraises_loop_catches:
  "(\<forall>r. exec code = Inl r \<longrightarrow> execute_and_render exec code = Inl r)
   \<and> (\<forall>scope. exec code = Inr scope \<and> scope (ascii ''fig'') = None
         \<longrightarrow> execute_and_render exec code = Inl (Err missing_fig_error))
   \<and> (\<forall>script x.
         get_visualization_code (generate_content w (attempt st + 1)) concept (last_error st) = Inr script
         \<and> execute_and_render (py_exec w (attempt st)) script = Inl (Err x) \<longrightarrow>
         (\<exists>st'. loop_body w concept max_retries st = Inr st'
            \<and> last_error st' = Some (exc_str x) \<and> attempt st' = attempt st + 1
            \<and> failures st' = failures st @ [exc_str x]
            \<and> (\<exists>before. ui st' = before @ [StWarning (failed_message (attempt st) (exc_str x))])))
   \<and> (\<forall>script x.
         get_visualization_code (generate_content w (attempt st + 1)) concept (last_error st) = Inr script
         \<and> execute_and_render (py_exec w (attempt st)) script = Inl (Exit x) \<longrightarrow>
         (\<exists>st'. loop_body w concept max_retries st = Inl (Exit x, st')
            \<and> (attempt st < max_retries \<and> \<not> success st \<longrightarrow>
                  retry_loop w concept max_retries st = Inl (Exit x, st'))
            \<and> attempt st' = attempt st \<and> last_error st' = last_error st
            \<and> failures st' = failures st))"
proof (intro conjI allI impI)
  fix r assume "exec code = Inl r"
  then show "execute_and_render exec code = Inl r"
    by (cases r) (simp_all add: execute_and_render_def execute_and_render_try_def)
next
  fix scope assume "exec code = Inr scope \<and> scope (ascii ''fig'') = None"
  then show "execute_and_render exec code = Inl (Err missing_fig_error)"
    by (simp add: execute_and_render_def execute_and_render_try_def)
next
  fix script x
  assume "get_visualization_code (generate_content w (attempt st + 1)) concept (last_error st) = Inr script
         \<and> execute_and_render (py_exec w (attempt st)) script = Inl (Err x)"
  then obtain st2 where "attempt_try w concept max_retries st = Inl (Err x, st2)"
    using attempt_try_execution_error by blast
  from loop_body_failure [OF this]
  show "\<exists>st'. loop_body w concept max_retries st = Inr st'
            \<and> last_error st' = Some (exc_str x) \<and> attempt st' = attempt st + 1
            \<and> failures st' = failures st @ [exc_str x]
            \<and> (\<exists>before. ui st' = before @ [StWarning (failed_message (attempt st) (exc_str x))])"
    by auto
next
  fix script x
  assume "get_visualization_code (generate_content w (attempt st + 1)) concept (last_error st) = Inr script
         \<and> execute_and_render (py_exec w (attempt st)) script = Inl (Exit x)"
  then obtain st2 where t: "attempt_try w concept max_retries st = Inl (Exit x, st2)"
    using attempt_try_execution_error by blast
  have b: "loop_body w concept max_retries st = Inl (Exit x, st2)"
    by (rule loop_body_lets_through [OF t])
  have r: "retry_loop w concept max_retries st = Inl (Exit x, st2)"
    if "attempt st < max_retries \<and> \<not> success st"
    using that b by (simp add: retry_loop_left)
  have f: "attempt st2 = attempt st" "last_error st2 = last_error st" "failures st2 = failures st"
    using attempt_try_page(3,4,5) [of w concept max_retries st] by (simp_all add: t)
  show "\<exists>st'. loop_body w concept max_retries st = Inl (Exit x, st')
            \<and> (attempt st < max_retries \<and> \<not> success st \<longrightarrow>
                  retry_loop w concept max_retries st = Inl (Exit x, st'))
            \<and> attempt st' = attempt st \<and> last_error st' = last_error st
            \<and> failures st' = failures st"
    using b r f by blast
qed

theorem execute_and_render_reraises_loop_catches_witness:
  "execute_and_render sample_exec (ascii ''Fig = 1'') = Inl (Err missing_fig_error)
   \<and> raised_of (loop_body bad_world (ascii ''Ciclo de Carnot'') 3 (initial_page [] [])) = None
   \<and> last_error (page_of (loop_body bad_world (ascii ''Ciclo de Carnot'') 3 (initial_page [] [])))
        = Some (ascii ''invalid syntax (<string>, line 1)'')
   \<and> attempt (page_of (loop_body bad_world (ascii ''Ciclo de Carnot'') 3 (initial_page [] []))) = 1
   \<and> raised_of (retry_loop exit_world (ascii ''Ciclo de Carnot'') 3 (initial_page [] []))
        = Some (Exit system_exit)
   \<and> attempt (page_of (retry_loop exit_world (ascii ''Ciclo de Carnot'') 3 (initial_page [] []))) = 0"
proof -
  let ?st = "initial_page [] [] :: py_val page"
  let ?c = "ascii ''Ciclo de Carnot''"
  have i: "attempt ?st = 0" "\<not> success ?st" "last_error ?st = None" "failures ?st = []"
    by (simp_all add: initial_page_def)
  have m: "sample_exec (ascii ''Fig = 1'') = Inr [ascii ''Fig'' \<mapsto> IntVal 1]
           \<and> [ascii ''Fig'' \<mapsto> IntVal 1] (ascii ''fig'') = None"
    by (simp add: sample_exec_def ascii_def)
  have g: "get_visualization_code (generate_content bad_world (attempt ?st + 1)) ?c (last_error ?st)
             = Inr (ascii ''def ('')
         \<and> execute_and_render (py_exec bad_world (attempt ?st)) (ascii ''def ('') = Inl (Err syntax_error)"
    by (simp add: bad_world_generates) (simp add: bad_world_def sample_exec_def_paren)
  have h: "get_visualization_code (generate_content exit_world (attempt ?st + 1)) ?c (last_error ?st)
             = Inr (ascii ''raise SystemExit'')
         \<and> execute_and_render (py_exec exit_world (attempt ?st)) (ascii ''raise SystemExit'')
             = Inl (Exit system_exit)"
    by (simp add: exit_world_generates) (simp add: exit_world_def sample_exec_exit)
  note bad = execute_and_render_reraises_loop_catches
               [of sample_exec "ascii ''Fig = 1''" bad_world ?st ?c 3]
  note left = execute_and_render_reraises_loop_catches
               [of sample_exec "ascii ''Fig = 1''" exit_world ?st ?c 3]
  from bad m have a: "execute_and_render sample_exec (ascii ''Fig = 1'') = Inl (Err missing_fig_error)"
    by blast
  from bad g obtain st' where b: "loop_body bad_world ?c 3 ?st = Inr st'"
    "last_error st' = Some (exc_str syntax_error)" "attempt st' = attempt ?st + 1"
    by blast
  from left h obtain p where c: "loop_body exit_world ?c 3 ?st = Inl (Exit system_exit, p)"
    "attempt ?st < 3 \<and> \<not> success ?st \<longrightarrow> retry_loop exit_world ?c 3 ?st = Inl (Exit system_exit, p)"
    "attempt p = attempt ?st"
    by blast
  from c(2) i have d: "retry_loop exit_world ?c 3 ?st = Inl (Exit system_exit, p)" by simp
  show ?thesis
    using a b c(3) by (simp add: d i syntax_error_def)
qed

text \<open>
  C2, as the code has it. A script that ends the interpreter fails at every attempt, and
  the loop is left at the first one: one generation call, no failure recorded, no
  exhaustion report.
\<close>

theorem exit_ends_retry_loop_counterexample:
  "get_visualization_code (generate_content exit_world 1) (ascii ''Ciclo de Carnot'') None
     = Inr (ascii ''raise SystemExit'')
   \<and> execute_and_render (py_exec exit_world 0) (ascii ''raise SystemExit'') = Inl (Exit system_exit)
   \<and> execute_and_render (py_exec exit_world 1) (ascii ''raise SystemExit'') = Inl (Exit system_exit)
   \<and> execute_and_render (py_exec exit_world 2) (ascii ''raise SystemExit'') = Inl (Exit system_exit)
   \<and> raised_of (visualization_tab exit_world (ascii ''Ciclo de Carnot'') 3 [] [])
        = Some (Exit system_exit)
   \<and> length (gen_calls (page_of (visualization_tab exit_world (ascii ''Ciclo de Carnot'') 3 [] []))) = 1
   \<and> failures (page_of (visualization_tab exit_world (ascii ''Ciclo de Carnot'') 3 [] [])) = []
   \<and> attempt (page_of (visualization_tab exit_world (ascii ''Ciclo de Carnot'') 3 [] [])) = 0
   \<and> StError exhausted_message
        \<notin> set (ui (page_of (visualization_tab exit_world (ascii ''Ciclo de Carnot'') 3 [] [])))"
proof -
  let ?c = "ascii ''Ciclo de Carnot''"
  have n: "0 < (3::nat)" by simp
  have g: "get_visualization_code (generate_content exit_world 1) ?c None
             = Inr (ascii ''raise SystemExit'')"
    by (rule exit_world_generates)
  have e: "execute_and_render (py_exec exit_world a) (ascii ''raise SystemExit'')
             = Inl (Exit system_exit)" for a
    by (simp add: exit_world_def sample_exec_exit)
  from visualization_tab_first_pass_exit [OF n g e, of "[]" "[]"] obtain p
    where p: "visualization_tab exit_world ?c 3 [] [] = Inl (Exit system_exit, p)"
      "attempt p = 0" "failures p = []" "gen_calls p = [(?c, None)]"
      "ui p = [] @ [StatusInfo (attempt_label 0 3),
                    StExpanderCode (expander_label 0) (ascii ''raise SystemExit'')]"
    by blast
  show ?thesis
    using g e [of 0] e [of 1] e [of 2] p by simp
qed

text \<open>
  C2, amended. If at every attempt the execution of the generated script raises an
  instance of \<open>Exception\<close>, the loop and its report run to their end without success
  after exactly \<open>max_retries\<close> attempts: \<open>max_retries\<close> generation calls and as
  many recorded failures. The first call is made with \<open>error_context = None\<close>. The
  failure recorded for attempt \<open>k\<close> is the text \<open>str(e)\<close> of the exception \<open>e\<close> that
  the attempt raised when its generation was called with the error context it was called
  with, and the call of the next attempt receives that text as \<open>error_context\<close>. Every
  failure is shown as a warning, and the page ends with the exhaustion report, whose
  second line carries the last failure text.
\<close>

theorem exhausted_after_max_retries:
  assumes "\<forall>a<max_retries. \<forall>ec code.
             get_visualization_code (generate_content w (a + 1)) concept ec = Inr code
             \<longrightarrow> (\<exists>e. execute_and_render (py_exec w a) code = Inl (Err e))"
  shows "\<exists>fin. visualization_tab w concept max_retries shown explained = Inr fin
         \<and> \<not> success fin \<and> attempt fin = max_retries
         \<and> length (gen_calls fin) = max_retries \<and> length (failures fin) = max_retries
         \<and> (0 < max_retries \<longrightarrow> gen_calls fin ! 0 = (concept, None))
         \<and> (\<forall>k<max_retries. \<exists>e.
               attempt_outcome w concept k (snd (gen_calls fin ! k)) = Inl (Err e)
               \<and> failures fin ! k = exc_str e)
         \<and> (\<forall>k. Suc k < max_retries \<longrightarrow> gen_calls fin ! Suc k = (concept, Some (failures fin ! k)))
         \<and> (\<forall>k<max_retries. StWarning (failed_message k (failures fin ! k)) \<in> set (ui fin))
         \<and> (0 < max_retries \<longrightarrow>
              last_error fin = Some (last (failures fin))
              \<and> (\<exists>before. ui fin = before @ [StError exhausted_message,
                   StError ([218] @ ascii ''ltimo error: '' @ last (failures fin))]))"
proof -
  have "\<forall>a<max_retries. \<forall>ec. \<exists>e. attempt_outcome w concept a ec = Inl (Err e)"
    using assms attempt_outcome_execution_fails [of w _ concept] by blast
  from retry_loop_exhausts [OF this, of shown explained] obtain st
    where r: "retry_loop w concept max_retries (initial_page shown explained) = Inr st"
      and ns: "\<not> success st" and at: "attempt st = max_retries"
      and inv: "feedback_inv w concept st"
    by blast
  let ?fin = "st\<lparr>ui := ui st @ [StError exhausted_message,
                                StError (last_error_message (last_error st))]\<rparr>"
  have fin: "visualization_tab w concept max_retries shown explained = Inr ?fin"
    using ns by (simp add: visualization_tab_def r)
  from inv have lf: "length (failures st) = attempt st"
    and lg: "length (gen_calls st) = attempt st + (if success st then 1 else 0)"
    and calls: "\<forall>k < length (gen_calls st).
           gen_calls st ! k = (concept, if k = 0 then None else Some (failures st ! (k - 1)))"
    and raised: "\<forall>k < attempt st. \<exists>e.
           attempt_outcome w concept k (snd (gen_calls st ! k)) = Inl (Err e)
           \<and> failures st ! k = exc_str e"
    and le: "last_error st = (if attempt st = 0 then None else Some (failures st ! (attempt st - 1)))"
    and warn: "\<forall>k < attempt st. StWarning (failed_message k (failures st ! k)) \<in> set (ui st)"
    unfolding feedback_inv_def by blast+
  have lf': "length (failures st) = max_retries" using lf at by simp
  have lg': "length (gen_calls st) = max_retries" using lg at ns by simp
  have c0: "gen_calls st ! 0 = (concept, None)" if "0 < max_retries"
    using calls lg' that by auto
  have cs: "gen_calls st ! Suc k = (concept, Some (failures st ! k))" if "Suc k < max_retries" for k
    using calls lg' that by auto
  have ra: "\<forall>k<max_retries. \<exists>e.
               attempt_outcome w concept k (snd (gen_calls st ! k)) = Inl (Err e)
               \<and> failures st ! k = exc_str e"
    using raised at by simp
  have wa: "\<forall>k<max_retries. StWarning (failed_message k (failures st ! k)) \<in> set (ui st)"
    using warn at by simp
  have la: "last_error st = Some (last (failures st))" if "0 < max_retries"
  proof -
    have "failures st \<noteq> []" using lf' that by auto
    then have "last (failures st) = failures st ! (max_retries - 1)"
      by (simp add: last_conv_nth lf')
    then show ?thesis using le at that by simp
  qed
  have big: "\<not> success ?fin \<and> attempt ?fin = max_retries
         \<and> length (gen_calls ?fin) = max_retries \<and> length (failures ?fin) = max_retries
         \<and> (0 < max_retries \<longrightarrow> gen_calls ?fin ! 0 = (concept, None))
         \<and> (\<forall>k<max_retries. \<exists>e.
               attempt_outcome w concept k (snd (gen_calls ?fin ! k)) = Inl (Err e)
               \<and> failures ?fin ! k = exc_str e)
         \<and> (\<forall>k. Suc k < max_retries \<longrightarrow> gen_calls ?fin ! Suc k = (concept, Some (failures ?fin ! k)))
         \<and> (\<forall>k<max_retries. StWarning (failed_message k (failures ?fin ! k)) \<in> set (ui ?fin))
         \<and> (0 < max_retries \<longrightarrow>
              last_error ?fin = Some (last (failures ?fin))
              \<and> (\<exists>before. ui ?fin = before @ [StError exhausted_message,
                   StError ([218] @ ascii ''ltimo error: '' @ last (failures ?fin))]))"
    using ns at lf' lg' c0 cs ra wa la
    by (simp add: last_error_message_def format_optional_def)
  show ?thesis
    by (rule exI [of _ ?fin], rule conjI [OF fin big])
qed

theorem exhausted_after_max_retries_witness:
  "let run = visualization_tab bad_world (ascii ''Ciclo de Carnot'') 3 [] [] in
   raised_of run = None
   \<and> \<not> success (page_of run) \<and> attempt (page_of run) = 3
   \<and> failures (page_of run)
       = [ascii ''invalid syntax (<string>, line 1)'', ascii ''invalid syntax (<string>, line 1)'',
          ascii ''invalid syntax (<string>, line 1)'']
   \<and> gen_calls (page_of run)
       = [(ascii ''Ciclo de Carnot'', None),
          (ascii ''Ciclo de Carnot'', Some (ascii ''invalid syntax (<string>, line 1)'')),
          (ascii ''Ciclo de Carnot'', Some (ascii ''invalid syntax (<string>, line 1)''))]
   \<and> last_error (page_of run) = Some (ascii ''invalid syntax (<string>, line 1)'')"
proof -
  let ?c = "ascii ''Ciclo de Carnot''"
  let ?t = "ascii ''invalid syntax (<string>, line 1)''"
  have h: "\<forall>a<3. \<forall>ec code.
      get_visualization_code (generate_content bad_world (a + 1)) ?c ec = Inr code
      \<longrightarrow> (\<exists>e. execute_and_render (py_exec bad_world a) code = Inl (Err e))"
    by (simp add: bad_world_generates) (simp add: bad_world_def sample_exec_def_paren)
  from exhausted_after_max_retries [OF h, of "[]" "[]"] obtain fin
    where v: "visualization_tab bad_world ?c 3 [] [] = Inr fin"
      and s: "\<not> success fin" "attempt fin = 3"
      and l: "length (gen_calls fin) = 3" "length (failures fin) = 3"
      and c0: "gen_calls fin ! 0 = (?c, None)"
      and ra: "\<forall>k<3. \<exists>e. attempt_outcome bad_world ?c k (snd (gen_calls fin ! k)) = Inl (Err e)
                 \<and> failures fin ! k = exc_str e"
      and cs: "\<forall>k. Suc k < 3 \<longrightarrow> gen_calls fin ! Suc k = (?c, Some (failures fin ! k))"
      and la: "last_error fin = Some (last (failures fin))"
    by auto
  have f: "failures fin ! k = ?t" if "k < 3" for k
    using ra that by (auto simp: bad_world_outcome syntax_error_def)
  have fs: "failures fin = [?t, ?t, ?t]"
    using list_of_three [OF l(2)] f [of 0] f [of 1] f [of 2] by simp
  have "gen_calls fin ! 1 = (?c, Some ?t)" "gen_calls fin ! 2 = (?c, Some ?t)"
    using cs f [of 0] f [of 1] by (simp_all add: numeral_2_eq_2)
  then have gs: "gen_calls fin = [(?c, None), (?c, Some ?t), (?c, Some ?t)]"
    using list_of_three [OF l(1)] c0 by simp
  show ?thesis
    unfolding Let_def v using s fs gs la by simp
qed

text \<open>
  C3. Whatever the model, the interpreter and the chart widget answer, the retry loop is
  a total function and its result is reached by at most \<open>max_retries\<close> passes of the
  loop body, each of which makes one generation call.
\<close>

theorem retry_loop_terminates_within_max_retries:
  "\<exists>k. k \<le> max_retries
       \<and> retry_loop w concept max_retries (initial_page shown explained)
           = passes w concept max_retries k (initial_page shown explained)
       \<and> length (gen_calls (page_of (retry_loop w concept max_retries (initial_page shown explained)))) = k"
  using retry_loop_passes [of "initial_page shown explained" max_retries w concept]
  by (auto simp: initial_page_def)

text \<open>
  C4. A failure of the model call inside \<open>get_visualization_code\<close> leaves the
  \<open>try\<close> block of the loop as an exception of class \<open>Exception\<close>, whose text is the
  message \<open>Error generando codigo: ...\<close>, just as an exception raised by the execution
  does. Every instance of \<open>Exception\<close> that leaves the \<open>try\<close> block is handled by the
  same branch: the pass ends normally, one attempt is counted, the text becomes
  \<open>last_error\<close> and is recorded, \<open>success\<close> is left as it was, and the next pass
  calls \<open>get_visualization_code\<close> with that text as \<open>error_context\<close>.
\<close>

theorem generation_error_counts_as_failed_attempt:
  "(\<forall>e. generate_content w (attempt st + 1) (build_prompt concept (last_error st)) = Inl e \<longrightarrow>
      (\<exists>st1. attempt_try w concept max_retries st =
         Inl (Err (PyExc ''Exception''
                     (ascii ''Error generando c'' @ [243] @ ascii ''digo: '' @ exc_str e)), st1)))
   \<and> (\<forall>code x. get_visualization_code (generate_content w (attempt st + 1)) concept (last_error st) = Inr code
        \<and> execute_and_render (py_exec w (attempt st)) code = Inl (Err x) \<longrightarrow>
      (\<exists>st2. attempt_try w concept max_retries st = Inl (Err x, st2)))
   \<and> (\<forall>x st_x. attempt_try w concept max_retries st = Inl (Err x, st_x) \<longrightarrow>
        (\<exists>st'. loop_body w concept max_retries st = Inr st'
         \<and> attempt st' = attempt st + 1 \<and> last_error st' = Some (exc_str x)
         \<and> success st' = success st \<and> failures st' = failures st @ [exc_str x]
         \<and> gen_calls (page_of (loop_body w concept max_retries st'))
             = gen_calls st @ [(concept, last_error st), (concept, Some (exc_str x))]))"
proof (intro conjI allI impI)
  fix e
  assume "generate_content w (attempt st + 1) (build_prompt concept (last_error st)) = Inl e"
  then have "get_visualization_code (generate_content w (attempt st + 1)) concept (last_error st)
      = Inl (PyExc ''Exception'' (ascii ''Error generando c'' @ [243] @ ascii ''digo: '' @ exc_str e))"
    by (simp add: get_visualization_code_def)
  from attempt_try_generation_error [OF this]
  show "\<exists>st1. attempt_try w concept max_retries st =
         Inl (Err (PyExc ''Exception''
                     (ascii ''Error generando c'' @ [243] @ ascii ''digo: '' @ exc_str e)), st1)"
    by blast
next
  fix code x
  assume "get_visualization_code (generate_content w (attempt st + 1)) concept (last_error st) = Inr code
        \<and> execute_and_render (py_exec w (attempt st)) code = Inl (Err x)"
  then show "\<exists>st2. attempt_try w concept max_retries st = Inl (Err x, st2)"
    using attempt_try_execution_error by blast
next
  fix x st_x
  assume a: "attempt_try w concept max_retries st = Inl (Err x, st_x)"
  from loop_body_failure [OF a] obtain b
    where b: "loop_body w concept max_retries st = Inr b"
      "success b = success st" "attempt b = attempt st + 1"
      "last_error b = Some (exc_str x)" "failures b = failures st @ [exc_str x]"
      "gen_calls b = gen_calls st @ [(concept, last_error st)]"
    by blast
  have "gen_calls (page_of (loop_body w concept max_retries b))
          = gen_calls st @ [(concept, last_error st), (concept, Some (exc_str x))]"
    by (simp add: loop_body_gen_calls b)
  with b show "\<exists>st'. loop_body w concept max_retries st = Inr st'
         \<and> attempt st' = attempt st + 1 \<and> last_error st' = Some (exc_str x)
         \<and> success st' = success st \<and> failures st' = failures st @ [exc_str x]
         \<and> gen_calls (page_of (loop_body w concept max_retries st'))
             = gen_calls st @ [(concept, last_error st), (concept, Some (exc_str x))]"
    by blast
qed

theorem generation_error_counts_as_failed_attempt_witness:
  "raised_of (loop_body flaky_world (ascii ''Ciclo de Carnot'') 3 (initial_page [] [])) = None
   \<and> attempt (page_of (loop_body flaky_world (ascii ''Ciclo de Carnot'') 3 (initial_page [] []))) = 1
   \<and> last_error (page_of (loop_body flaky_world (ascii ''Ciclo de Carnot'') 3 (initial_page [] [])))
       = Some (ascii ''Error generando c'' @ [243] @ ascii ''digo: 429 quota exceeded'')
   \<and> gen_calls (page_of (loop_body flaky_world (ascii ''Ciclo de Carnot'') 3
         (page_of (loop_body flaky_world (ascii ''Ciclo de Carnot'') 3 (initial_page [] [])))))
        = [(ascii ''Ciclo de Carnot'', None),
           (ascii ''Ciclo de Carnot'',
            Some (ascii ''Error generando c'' @ [243] @ ascii ''digo: 429 quota exceeded''))]"
proof -
  let ?st = "initial_page [] [] :: py_val page"
  let ?c = "ascii ''Ciclo de Carnot''"
  let ?x = "PyExc ''Exception'' (ascii ''Error generando c'' @ [243] @ ascii ''digo: '' @ exc_str quota_error)"
  note t = generation_error_counts_as_failed_attempt [of flaky_world ?st ?c 3]
  have "generate_content flaky_world (attempt ?st + 1) (build_prompt ?c (last_error ?st)) = Inl quota_error"
    by (simp add: flaky_world_def initial_page_def)
  with t obtain st1 where "attempt_try flaky_world ?c 3 ?st = Inl (Err ?x, st1)"
    by blast
  with t obtain st' where b: "loop_body flaky_world ?c 3 ?st = Inr st'"
    and f: "attempt st' = attempt ?st + 1" "last_error st' = Some (exc_str ?x)"
    "gen_calls (page_of (loop_body flaky_world ?c 3 st'))
       = gen_calls ?st @ [(?c, last_error ?st), (?c, Some (exc_str ?x))]"
    by blast
  have i: "attempt ?st = 0" "last_error ?st = None" "gen_calls ?st = []"
    by (simp_all add: initial_page_def)
  show ?thesis
    unfolding b using f by (simp add: i quota_error_def ascii_def)
qed

text \<open>
  C5, as the code has it. Of a fence with a language tag other than \<open>python\<close> only the
  backticks are removed: the tag stays in the returned text, which is then not the code
  that was fenced.
\<close>

theorem other_language_tag_stays_counterexample:
  "clean_code (ascii ''```py'' @ [10] @ ascii ''X'' @ [10] @ ascii ''```'')
     = ascii ''py'' @ [10] @ ascii ''X''
   \<and> clean_code (ascii ''```py'' @ [10] @ ascii ''X'' @ [10] @ ascii ''```'') \<noteq> ascii ''X''"
  by (simp add: clean_code_def fence_def fence_python_def strip_def isspace_def ascii_def)

text \<open>
  C5, amended. The clean-up that \<open>get_visualization_code\<close> applies to the response of
  the model removes every run of three backticks, and with it the tag \<open>python\<close> where
  that follows the backticks directly; the result is then trimmed of white space at both
  ends. So for a text \<open>x\<close> without three backticks in a row, the response that wraps
  \<open>x\<close> in a \<open>python\<close> fence, the response that wraps it in a fence without a tag,
  and \<open>x\<close> itself all give \<open>x\<close> trimmed, which is \<open>x\<close> when \<open>x\<close> has no white
  space at its ends. A tag that does not start with \<open>python\<close> or a backtick stays:
  the result is the tag, the line break and \<open>x\<close>, trimmed. No result contains three
  backticks in a row, and cleaning twice is the same as cleaning once.
\<close>

theorem clean_code_strips_fences:
  "(\<not> sublist fence x \<longrightarrow>
      clean_code (ascii ''```python'' @ [10] @ x @ [10] @ ascii ''```'') = strip x
      \<and> clean_code (ascii ''```'' @ [10] @ x @ [10] @ ascii ''```'') = strip x
      \<and> clean_code x = strip x)
   \<and> (\<not> sublist fence x \<and> strip x = x \<longrightarrow>
      clean_code (ascii ''```python'' @ [10] @ x @ [10] @ ascii ''```'') = x
      \<and> clean_code (ascii ''```'' @ [10] @ x @ [10] @ ascii ''```'') = x
      \<and> clean_code x = x)
   \<and> (\<forall>tag. tag \<noteq> [] \<and> hd tag \<noteq> 96 \<and> \<not> prefix (ascii ''python'') tag
         \<and> \<not> sublist fence (tag @ [10] @ x) \<longrightarrow>
         clean_code (ascii ''```'' @ tag @ [10] @ x @ [10] @ ascii ''```'') = strip (tag @ [10] @ x))
   \<and> \<not> sublist (ascii ''```'') (clean_code raw)
   \<and> clean_code (clean_code raw) = clean_code raw
   \<and> (\<forall>model concept error_context.
         model (build_prompt concept error_context) = Inr raw \<longrightarrow>
         get_visualization_code model concept error_context = Inr (clean_code raw))"
proof -
  have py: "clean_code (ascii ''```python'' @ [10] @ x @ [10] @ ascii ''```'') = strip x"
    if "\<not> sublist fence x"
  proof -
    have n: "\<not> sublist fence (10 # x)" by (rule newline_keeps_fence_free [OF that])
    have "clean_code (fence_python @ (10 # x) @ 10 # fence) = strip (10 # x)"
      by (rule clean_code_python_fenced_body [OF n])
    then show ?thesis
      by (simp add: fence_def fence_python_def strip_Cons_space isspace_newline)
  qed
  have bare: "clean_code (ascii ''```'' @ [10] @ x @ [10] @ ascii ''```'') = strip x"
    if "\<not> sublist fence x"
  proof -
    have n: "\<not> sublist fence (10 # x)" by (rule newline_keeps_fence_free [OF that])
    have h: "10 # x = [] \<or> hd (10 # x) \<noteq> 96" by simp
    have p: "\<not> prefix (ascii ''python'') ((10 # x) @ 10 # fence)"
      by (simp add: ascii_def)
    have "clean_code (fence @ (10 # x) @ 10 # fence) = strip (10 # x)"
      by (rule clean_code_fenced_body [OF n h p])
    then show ?thesis
      by (simp add: fence_def strip_Cons_space isspace_newline)
  qed
  have tagged: "clean_code (ascii ''```'' @ tag @ [10] @ x @ [10] @ ascii ''```'')
                  = strip (tag @ [10] @ x)"
    if "tag \<noteq> [] \<and> hd tag \<noteq> 96 \<and> \<not> prefix (ascii ''python'') tag
         \<and> \<not> sublist fence (tag @ [10] @ x)" for tag
  proof -
    from that have "\<not> sublist fence (tag @ 10 # x)" "tag \<noteq> []" "hd tag \<noteq> 96"
      "\<not> prefix (ascii ''python'') tag"
      by simp_all
    from clean_code_tagged_fence [OF this] show ?thesis by (simp add: fence_def)
  qed
  have none: "\<not> sublist (ascii ''```'') (clean_code raw)"
    using clean_code_no_fence [of raw] by (simp add: fence_def)
  have gen: "get_visualization_code model concept error_context = Inr (clean_code raw)"
    if "model (build_prompt concept error_context) = Inr raw"
    for model :: "pystr \<Rightarrow> py_exc + pystr" and concept error_context
    using that by (simp add: get_visualization_code_def)
  show ?thesis
    using py bare tagged none gen clean_code_fence_free [of x] clean_code_clean_code [of raw]
    by (intro conjI allI impI) (simp_all only:, blast+)
qed

theorem clean_code_strips_fences_witness:
  "clean_code (ascii ''```python'' @ [10] @ ascii ''X'' @ [10] @ ascii ''```'') = ascii ''X''
   \<and> clean_code (ascii ''```'' @ [10] @ ascii ''X'' @ [10] @ ascii ''```'') = ascii ''X''
   \<and> clean_code (ascii ''X'') = ascii ''X''
   \<and> clean_code (ascii ''```'' @ ascii ''js'' @ [10] @ ascii ''X'' @ [10] @ ascii ''```'')
       = ascii ''js'' @ [10] @ ascii ''X''"
proof -
  have a: "\<not> sublist fence (ascii ''X'') \<and> strip (ascii ''X'') = ascii ''X''"
    by (simp add: fence_eq ascii_def sublist_Cons_right strip_def isspace_def)
  have b: "ascii ''js'' \<noteq> [] \<and> hd (ascii ''js'') \<noteq> 96 \<and> \<not> prefix (ascii ''python'') (ascii ''js'')
         \<and> \<not> sublist fence (ascii ''js'' @ [10] @ ascii ''X'')"
    by (simp add: fence_eq ascii_def sublist_Cons_right)
  have c: "strip (ascii ''js'' @ [10] @ ascii ''X'') = ascii ''js'' @ [10] @ ascii ''X''"
    by (simp add: ascii_def strip_def isspace_def)
  note t = clean_code_strips_fences [of "ascii ''X''"]
  have r1: "clean_code (ascii ''```python'' @ [10] @ ascii ''X'' @ [10] @ ascii ''```'') = ascii ''X''
      \<and> clean_code (ascii ''```'' @ [10] @ ascii ''X'' @ [10] @ ascii ''```'') = ascii ''X''
      \<and> clean_code (ascii ''X'') = ascii ''X''"
    by (rule t [THEN conjunct2, THEN conjunct1, rule_format, OF a])
  have "clean_code (ascii ''```'' @ ascii ''js'' @ [10] @ ascii ''X'' @ [10] @ ascii ''```'')
          = strip (ascii ''js'' @ [10] @ ascii ''X'')"
    by (rule t [THEN conjunct2, THEN conjunct2, THEN conjunct1, rule_format, OF b])
  then have r2: "clean_code (ascii ''```'' @ ascii ''js'' @ [10] @ ascii ''X'' @ [10] @ ascii ''```'')
          = ascii ''js'' @ [10] @ ascii ''X''"
    by (simp only: c)
  from r1 r2 show ?thesis by (elim conjE) (intro conjI, assumption+)
qed

text \<open>
  C6, as the code has it. A concept of three spaces passes the guard \<open>if not concept\<close>
  and is the argument of both generation calls, although stripping it leaves nothing.
\<close>

theorem whitespace_concept_reaches_generation_counterexample:
  "concepts_passed (generar_visualizacion good_world (ascii ''   '') (ascii ''key''))
     = [ascii ''   '', ascii ''   '']
   \<and> strip (ascii ''   '') = []"
proof -
  have n: "0 < (3::nat)" by simp
  have g: "get_visualization_code (generate_content good_world 1) (ascii ''   '') None
             = Inr (ascii ''fig = go.Figure()'')"
    by (rule good_world_generates)
  have e: "execute_and_render (py_exec good_world 0) (ascii ''fig = go.Figure()'') = Inr (FigureVal [])"
    by (simp add: good_world_def sample_exec_figure)
  have c: "plotly_chart good_world 0 (FigureVal []) = None"
    by (simp add: good_world_def sample_chart_def)
  have ne: "ascii ''   '' \<noteq> []" "ascii ''key'' \<noteq> []" by (simp_all add: ascii_def)
  have "gen_calls (page_of (visualization_tab good_world (ascii ''   '') 3 shown [ascii ''   '']))
          = [(ascii ''   '', None)]" for shown
    using visualization_tab_first_pass [OF n g e c, of shown "[ascii ''   '']"] by auto
  then have "concepts_passed (generar_visualizacion good_world (ascii ''   '') (ascii ''key''))
     = [ascii ''   '', ascii ''   '']"
    using ne by (simp add: generar_visualizacion_cases concepts_passed_def visualization_tab_calls(2))
  moreover have "strip (ascii ''   '') = []"
    by (simp add: strip_def isspace_def ascii_def)
  ultimately show ?thesis by simp
qed

text \<open>
  C6, amended. Every concept passed to \<open>get_explanation\<close> or to
  \<open>get_visualization_code\<close> is the text of the input field and is not the empty
  string; and every non-empty concept is passed on, once an API key is set.
\<close>

theorem generation_receives_nonempty_concept:
  "(\<forall>c \<in> set (concepts_passed (generar_visualizacion w concept api_key)). c = concept \<and> c \<noteq> [])
   \<and> (concept \<noteq> [] \<and> api_key \<noteq> [] \<longrightarrow>
        concepts_passed (generar_visualizacion w concept api_key) \<noteq> [])"
proof -
  have "\<forall>c \<in> fst ` set (gen_calls (page_of (retry_loop w concept 3 (initial_page shown explained)))).
          c = concept" for shown explained
    by (rule retry_loop_gen_calls_concept) (simp add: initial_page_def)
  then show ?thesis
    by (auto simp: generar_visualizacion_cases concepts_passed_def visualization_tab_calls
                   initial_page_def)
qed

theorem generation_receives_nonempty_concept_witness:
  "concepts_passed (generar_visualizacion bad_world (ascii ''Onda Senoidal'') (ascii ''key'')) \<noteq> []
   \<and> set (concepts_passed (generar_visualizacion bad_world (ascii ''Onda Senoidal'') (ascii ''key'')))
       = {ascii ''Onda Senoidal''}"
proof -
  have ne: "ascii ''Onda Senoidal'' \<noteq> [] \<and> ascii ''key'' \<noteq> []" by (simp add: ascii_def)
  from generation_receives_nonempty_concept [of bad_world "ascii ''Onda Senoidal''" "ascii ''key''"] ne
  show ?thesis by (auto simp: neq_Nil_conv)
qed

text \<open>
  C7, as the code has it. The first script binds \<open>fig\<close> to the number 1, so
  \<open>execute_and_render\<close> returns on the first call; the chart call then refuses the
  value inside the same \<open>try\<close> block, the attempt counts as failed, and the loop ends
  without success after three attempts and three generation calls.
\<close>

theorem returned_value_refused_counterexample:
  "get_visualization_code (generate_content number_world 1) (ascii ''Onda Senoidal'') None
     = Inr (ascii ''fig = 1'')
   \<and> execute_and_render (py_exec number_world 0) (ascii ''fig = 1'') = Inr (IntVal 1)
   \<and> raised_of (visualization_tab number_world (ascii ''Onda Senoidal'') 3 [] []) = None
   \<and> \<not> success (page_of (visualization_tab number_world (ascii ''Onda Senoidal'') 3 [] []))
   \<and> attempt (page_of (visualization_tab number_world (ascii ''Onda Senoidal'') 3 [] [])) = 3
   \<and> length (gen_calls (page_of (visualization_tab number_world (ascii ''Onda Senoidal'') 3 [] []))) = 3
   \<and> snd (gen_calls (page_of (visualization_tab number_world (ascii ''Onda Senoidal'') 3 [] [])) ! 1)
       = Some (ascii ''not a figure'')"
proof -
  let ?c = "ascii ''Onda Senoidal''"
  have g: "get_visualization_code (generate_content number_world 1) ?c None = Inr (ascii ''fig = 1'')"
    by (rule number_world_generates)
  have e: "execute_and_render (py_exec number_world 0) (ascii ''fig = 1'') = Inr (IntVal 1)"
    by (simp add: number_world_def sample_exec_number)
  have "\<forall>a<3. \<forall>ec. \<exists>e. attempt_outcome number_world ?c a ec = Inl (Err e)"
    by (simp add: number_world_outcome)
  from retry_loop_exhausts [OF this, of "[]" "[]"] obtain st
    where r: "retry_loop number_world ?c 3 (initial_page [] []) = Inr st"
      and ns: "\<not> success st" and at: "attempt st = 3"
      and inv: "feedback_inv number_world ?c st"
    by blast
  from inv have lf: "length (failures st) = attempt st"
    and lg: "length (gen_calls st) = attempt st + (if success st then 1 else 0)"
    and calls: "\<forall>k < length (gen_calls st).
           gen_calls st ! k = (?c, if k = 0 then None else Some (failures st ! (k - 1)))"
    and raised: "\<forall>k < attempt st. \<exists>e.
           attempt_outcome number_world ?c k (snd (gen_calls st ! k)) = Inl (Err e)
           \<and> failures st ! k = exc_str e"
    unfolding feedback_inv_def by blast+
  have l: "length (gen_calls st) = 3" using lg at ns by simp
  have "failures st ! 0 = ascii ''not a figure''"
    using raised at by (auto simp: number_world_outcome not_a_figure_def)
  moreover have "gen_calls st ! 1 = (?c, Some (failures st ! 0))"
    using calls l by simp
  ultimately have s: "snd (gen_calls st ! 1) = Some (ascii ''not a figure'')" by simp
  have "visualization_tab number_world ?c 3 [] []
          = Inr (st\<lparr>ui := ui st @ [StError exhausted_message,
                                     StError (last_error_message (last_error st))]\<rparr>)"
    using ns by (simp add: visualization_tab_def r)
  then show ?thesis
    using g e ns at l s by simp
qed

text \<open>
  C7, amended. If the first attempt succeeds, that is the model returns a script, its
  execution returns \<open>fig\<close> and the chart call draws it, the loop ends with
  \<open>success\<close> set, the attempt counter still 0, no failure recorded, and exactly one
  generation call, made with \<open>error_context = None\<close>; the page shows that one attempt
  and the chart. If the chart call raises on the value returned, the first pass ends as a
  failed attempt with the text of that exception.
\<close>

theorem first_attempt_success:
  assumes "0 < max_retries"
    and "get_visualization_code (generate_content w 1) concept None = Inr code"
    and "execute_and_render (py_exec w 0) code = Inr fig"
  shows "(plotly_chart w 0 fig = None \<longrightarrow>
           (\<exists>fin. visualization_tab w concept max_retries shown explained = Inr fin
              \<and> success fin \<and> attempt fin = 0 \<and> gen_calls fin = [(concept, None)]
              \<and> failures fin = [] \<and> last_error fin = None \<and> code_to_run fin = code
              \<and> ui fin = shown @ [StatusInfo (attempt_label 0 max_retries),
                                   StExpanderCode (expander_label 0) code,
                                   StPlotlyChart fig, StatusSuccess success_message]))
         \<and> (\<forall>e. plotly_chart w 0 fig = Some e \<longrightarrow>
              (\<exists>st'. loop_body w concept max_retries (initial_page shown explained) = Inr st'
                 \<and> \<not> success st' \<and> attempt st' = 1 \<and> last_error st' = Some (exc_str e)
                 \<and> failures st' = [exc_str e] \<and> gen_calls st' = [(concept, None)]))"
proof (intro conjI allI impI)
  assume "plotly_chart w 0 fig = None"
  from visualization_tab_first_pass [OF assms this, of shown explained]
  show "\<exists>fin. visualization_tab w concept max_retries shown explained = Inr fin
              \<and> success fin \<and> attempt fin = 0 \<and> gen_calls fin = [(concept, None)]
              \<and> failures fin = [] \<and> last_error fin = None \<and> code_to_run fin = code
              \<and> ui fin = shown @ [StatusInfo (attempt_label 0 max_retries),
                                   StExpanderCode (expander_label 0) code,
                                   StPlotlyChart fig, StatusSuccess success_message]"
    by blast
next
  fix e assume c0: "plotly_chart w 0 fig = Some e"
  let ?i = "initial_page shown explained :: 'a page"
  have i: "attempt ?i = 0" "\<not> success ?i" "last_error ?i = None" "failures ?i = []"
    "gen_calls ?i = []"
    by (simp_all add: initial_page_def)
  have g: "get_visualization_code (generate_content w (attempt ?i + 1)) concept (last_error ?i) = Inr code"
    using assms(2) by (simp add: i)
  have x: "execute_and_render (py_exec w (attempt ?i)) code = Inr fig"
    using assms(3) by (simp add: i)
  have c: "plotly_chart w (attempt ?i) fig = Some e"
    using c0 by (simp add: i)
  from attempt_try_chart_error [OF g x c, of max_retries] obtain st2
    where "attempt_try w concept max_retries ?i = Inl (Err e, st2)" by blast
  from loop_body_failure [OF this] obtain b
    where "loop_body w concept max_retries ?i = Inr b"
      "success b = success ?i" "attempt b = attempt ?i + 1"
      "last_error b = Some (exc_str e)" "failures b = failures ?i @ [exc_str e]"
      "gen_calls b = gen_calls ?i @ [(concept, last_error ?i)]"
    by blast
  then show "\<exists>st'. loop_body w concept max_retries ?i = Inr st'
                 \<and> \<not> success st' \<and> attempt st' = 1 \<and> last_error st' = Some (exc_str e)
                 \<and> failures st' = [exc_str e] \<and> gen_calls st' = [(concept, None)]"
    by (simp add: i)
qed

theorem first_attempt_success_witness:
  "raised_of (visualization_tab good_world (ascii ''Onda Senoidal'') 3 [] []) = None
   \<and> success (page_of (visualization_tab good_world (ascii ''Onda Senoidal'') 3 [] []))
   \<and> attempt (page_of (visualization_tab good_world (ascii ''Onda Senoidal'') 3 [] [])) = 0
   \<and> gen_calls (page_of (visualization_tab good_world (ascii ''Onda Senoidal'') 3 [] []))
       = [(ascii ''Onda Senoidal'', None)]
   \<and> failures (page_of (visualization_tab good_world (ascii ''Onda Senoidal'') 3 [] [])) = []
   \<and> code_to_run (page_of (visualization_tab good_world (ascii ''Onda Senoidal'') 3 [] []))
       = ascii ''fig = go.Figure()''
   \<and> \<not> success (page_of (loop_body number_world (ascii ''Onda Senoidal'') 3 (initial_page [] [])))
   \<and> attempt (page_of (loop_body number_world (ascii ''Onda Senoidal'') 3 (initial_page [] []))) = 1
   \<and> last_error (page_of (loop_body number_world (ascii ''Onda Senoidal'') 3 (initial_page [] [])))
       = Some (ascii ''not a figure'')"
proof -
  let ?c = "ascii ''Onda Senoidal''"
  have n: "0 < (3::nat)" by simp
  have g: "get_visualization_code (generate_content good_world 1) ?c None
             = Inr (ascii ''fig = go.Figure()'')"
    by (rule good_world_generates)
  have e: "execute_and_render (py_exec good_world 0) (ascii ''fig = go.Figure()'') = Inr (FigureVal [])"
    by (simp add: good_world_def sample_exec_figure)
  have c: "plotly_chart good_world 0 (FigureVal []) = None"
    by (simp add: good_world_def sample_chart_def)
  have g': "get_visualization_code (generate_content number_world 1) ?c None = Inr (ascii ''fig = 1'')"
    by (rule number_world_generates)
  have e': "execute_and_render (py_exec number_world 0) (ascii ''fig = 1'') = Inr (IntVal 1)"
    by (simp add: number_world_def sample_exec_number)
  have c': "plotly_chart number_world 0 (IntVal 1) = Some not_a_figure"
    by (simp add: number_world_def sample_chart_def)
  from first_attempt_success [OF n g e, of "[]" "[]"] c
  obtain fin where a: "visualization_tab good_world ?c 3 [] [] = Inr fin"
    and fa: "success fin" "attempt fin = 0" "gen_calls fin = [(?c, None)]"
      "failures fin = []" "code_to_run fin = ascii ''fig = go.Figure()''"
    by auto
  from first_attempt_success [OF n g' e', of "[]" "[]"] c'
  obtain st' where b: "loop_body number_world ?c 3 (initial_page [] []) = Inr st'"
    and fb: "\<not> success st'" "attempt st' = 1" "last_error st' = Some (exc_str not_a_figure)"
    by auto
  show ?thesis
    unfolding a b using fa fb by (simp add: not_a_figure_def)
qed

text \<open>
  C8. \<open>execute_and_render\<close> returns a value exactly when the executed text ends
  normally and leaves a binding named \<open>fig\<close> in its local scope, and it returns the
  bound value whatever it is; when the text ends normally without such a binding the
  missing-output error is raised. The name is compared exactly: \<open>Fig\<close> does not count.
\<close>

theorem execute_and_render_checks_binding:
  "(execute_and_render exec code = Inr v
      \<longleftrightarrow> (\<exists>scope. exec code = Inr scope \<and> scope (ascii ''fig'') = Some v))
   \<and> (\<forall>scope. exec code = Inr scope \<and> scope (ascii ''fig'') = None
        \<longrightarrow> execute_and_render exec code = Inl (Err missing_fig_error))"
  by (auto simp: execute_and_render_def execute_and_render_try_def
           split: sum.splits option.splits py_raise.splits)

theorem execute_and_render_checks_binding_witness:
  "execute_and_render sample_exec (ascii ''fig = 1'') = Inr (IntVal 1)
   \<and> execute_and_render sample_exec (ascii ''Fig = 1'') = Inl (Err missing_fig_error)"
proof -
  have a: "\<exists>scope. sample_exec (ascii ''fig = 1'') = Inr scope \<and> scope (ascii ''fig'') = Some (IntVal 1)"
    by (simp add: sample_exec_def)
  have b: "sample_exec (ascii ''Fig = 1'') = Inr [ascii ''Fig'' \<mapsto> IntVal 1]
           \<and> [ascii ''Fig'' \<mapsto> IntVal 1] (ascii ''fig'') = None"
    by (simp add: sample_exec_def ascii_def)
  from a b show ?thesis
    using execute_and_render_checks_binding [of sample_exec "ascii ''fig = 1''" "IntVal 1"]
      execute_and_render_checks_binding [of sample_exec "ascii ''Fig = 1''"]
    by blast
qed

text \<open>
  C9. \<open>get_explanation\<close> always returns: the text of the model when the call
  succeeds, and the message \<open>Error generando explicacion: ...\<close> with the text of the
  exception when it fails. The handler calls it at most once, and what the first model
  call answers changes nothing of the visualization: with any other answer to that call
  the same thing, or nothing, is raised out of the handler, the variables, the generation
  calls and the failures are the same, and so is the page after its first entry, the
  explanation.
\<close>

theorem get_explanation_never_raises:
  "(\<exists>text. get_explanation model concept = Inr text)
   \<and> (\<forall>e. model (explanation_prompt concept) = Inl e \<longrightarrow>
         get_explanation model concept
           = Inr (ascii ''Error generando explicaci'' @ [243] @ ascii ''n: '' @ exc_str e))
   \<and> (\<forall>answer. model (explanation_prompt concept) = Inr answer \<longrightarrow>
         get_explanation model concept = Inr answer)
   \<and> length (explain_calls (page_of (generar_visualizacion w concept api_key))) \<le> 1
   \<and> (\<forall>g.
         raised_of (generar_visualizacion (w\<lparr>generate_content := (generate_content w)(0 := g)\<rparr>)
                      concept api_key)
           = raised_of (generar_visualizacion w concept api_key)
         \<and> (page_of (generar_visualizacion (w\<lparr>generate_content := (generate_content w)(0 := g)\<rparr>)
                      concept api_key))\<lparr>ui := []\<rparr>
           = (page_of (generar_visualizacion w concept api_key))\<lparr>ui := []\<rparr>
         \<and> tl (ui (page_of (generar_visualizacion
                      (w\<lparr>generate_content := (generate_content w)(0 := g)\<rparr>) concept api_key)))
           = tl (ui (page_of (generar_visualizacion w concept api_key))))"
proof (intro conjI allI impI)
  show "\<exists>text. get_explanation model concept = Inr text"
    by (rule get_explanation_returns)
next
  fix e assume "model (explanation_prompt concept) = Inl e"
  then show "get_explanation model concept
           = Inr (ascii ''Error generando explicaci'' @ [243] @ ascii ''n: '' @ exc_str e)"
    by (simp add: get_explanation_def get_explanation_try_def)
next
  fix answer assume "model (explanation_prompt concept) = Inr answer"
  then show "get_explanation model concept = Inr answer"
    by (simp add: get_explanation_def get_explanation_try_def)
next
  show "length (explain_calls (page_of (generar_visualizacion w concept api_key))) \<le> 1"
    by (simp add: generar_visualizacion_cases visualization_tab_calls(2) initial_page_def)
next
  fix g
  let ?w' = "w\<lparr>generate_content := (generate_content w)(0 := g)\<rparr>"
  let ?T = "visualization_tab w concept 3 [] [concept]"
  let ?m = "[StMarkdown (projr (get_explanation (generate_content w 0) concept))] :: 'a ui_event list"
  let ?m' = "[StMarkdown (projr (get_explanation (generate_content ?w' 0) concept))] :: 'a ui_event list"
  have t: "visualization_tab w concept 3 ?m [concept] = map_page (\<lambda>p. p\<lparr>ui := ?m @ ui p\<rparr>) ?T"
    by (rule visualization_tab_ui_prefix)
  have "visualization_tab w concept 3 ?m' [concept] = map_page (\<lambda>p. p\<lparr>ui := ?m' @ ui p\<rparr>) ?T"
    by (rule visualization_tab_ui_prefix)
  then have t': "visualization_tab ?w' concept 3 ?m' [concept]
                   = map_page (\<lambda>p. p\<lparr>ui := ?m' @ ui p\<rparr>) ?T"
    by (simp only: visualization_tab_ignores_call_0)
  have p: "generar_visualizacion w concept api_key =
     (if concept = [] then
        Inr (initial_page [StError (ascii ''Por favor escribe un concepto.'')] [])
      else if api_key = [] then
        Inr (initial_page
               [StError (ascii ''Por favor configura tu API Key en la barra lateral.'')] [])
      else map_page (\<lambda>p. p\<lparr>ui := ?m @ ui p\<rparr>) ?T)"
    by (simp only: generar_visualizacion_cases t)
  have p': "generar_visualizacion ?w' concept api_key =
     (if concept = [] then
        Inr (initial_page [StError (ascii ''Por favor escribe un concepto.'')] [])
      else if api_key = [] then
        Inr (initial_page
               [StError (ascii ''Por favor configura tu API Key en la barra lateral.'')] [])
      else map_page (\<lambda>p. p\<lparr>ui := ?m' @ ui p\<rparr>) ?T)"
    by (simp only: generar_visualizacion_cases t')
  show "raised_of (generar_visualizacion ?w' concept api_key)
          = raised_of (generar_visualizacion w concept api_key)"
    unfolding p p' by simp
  show "(page_of (generar_visualizacion ?w' concept api_key))\<lparr>ui := []\<rparr>
          = (page_of (generar_visualizacion w concept api_key))\<lparr>ui := []\<rparr>"
    unfolding p p' by simp
  show "tl (ui (page_of (generar_visualizacion ?w' concept api_key)))
          = tl (ui (page_of (generar_visualizacion w concept api_key)))"
    unfolding p p' by simp
qed

theorem get_explanation_never_raises_witness:
  "get_explanation (generate_content down_world 0) (ascii ''Ciclo de Carnot'')
     = Inr (ascii ''Error generando explicaci'' @ [243] @ ascii ''n: 429 quota exceeded'')"
proof -
  have "generate_content down_world 0 (explanation_prompt (ascii ''Ciclo de Carnot'')) = Inl quota_error"
    by (simp add: down_world_def)
  with get_explanation_never_raises
         [of "generate_content down_world 0" "ascii ''Ciclo de Carnot''" down_world "[]"]
  have "get_explanation (generate_content down_world 0) (ascii ''Ciclo de Carnot'')
     = Inr (ascii ''Error generando explicaci'' @ [243] @ ascii ''n: '' @ exc_str quota_error)"
    by blast
  then show ?thesis by (simp add: quota_error_def ascii_def)
qed

text \<open>
  C10. For every response, the cleaned text contains no run of three backticks and, when
  not empty, neither starts nor ends with white space. The replacement is global: a
  response that contains three backticks anywhere, also inside a string literal of
  otherwise good code, is changed.
\<close>

theorem clean_code_removes_every_fence:
  "\<not> sublist fence (clean_code raw)
   \<and> (clean_code raw \<noteq> [] \<longrightarrow>
        \<not> isspace (hd (clean_code raw)) \<and> \<not> isspace (last (clean_code raw)))
   \<and> (sublist fence raw \<longrightarrow> clean_code raw \<noteq> raw)"
proof (intro conjI impI)
  show n: "\<not> sublist fence (clean_code raw)" by (rule clean_code_no_fence)
  show "clean_code raw \<noteq> raw" if "sublist fence raw"
    using n that by auto
  assume "clean_code raw \<noteq> []"
  then have s: "strip (replace fence [] (replace fence_python [] raw)) \<noteq> []"
    by (simp add: clean_code_def)
  from strip_ends [OF s]
  show "\<not> isspace (hd (clean_code raw))" and "\<not> isspace (last (clean_code raw))"
    by (simp_all add: clean_code_def)
qed

theorem clean_code_removes_every_fence_witness:
  "sublist fence (ascii ''fig = px.line(title='' @ [39] @ ascii ''```python'' @ [39] @ ascii '')'')
   \<and> clean_code (ascii ''fig = px.line(title='' @ [39] @ ascii ''```python'' @ [39] @ ascii '')'')
       = ascii ''fig = px.line(title='' @ [39, 39] @ ascii '')''
   \<and> clean_code (ascii ''fig = px.line(title='' @ [39] @ ascii ''```python'' @ [39] @ ascii '')'')
       \<noteq> ascii ''fig = px.line(title='' @ [39] @ ascii ''```python'' @ [39] @ ascii '')''
   \<and> \<not> isspace (hd (clean_code (ascii '' x = 1 '')))
   \<and> \<not> isspace (last (clean_code (ascii '' x = 1 '')))"
proof -
  let ?raw = "ascii ''fig = px.line(title='' @ [39] @ ascii ''```python'' @ [39] @ ascii '')''"
  have s: "sublist fence ?raw"
    by (simp add: fence_eq ascii_def sublist_Cons_right)
  have c: "clean_code ?raw = ascii ''fig = px.line(title='' @ [39, 39] @ ascii '')''"
    by (simp add: clean_code_def fence_def fence_python_def strip_def isspace_def ascii_def)
  have x: "clean_code (ascii '' x = 1 '') \<noteq> []"
    by (simp add: clean_code_def fence_def fence_python_def strip_def isspace_def ascii_def)
  from clean_code_removes_every_fence [of ?raw] s have "clean_code ?raw \<noteq> ?raw" by blast
  moreover from clean_code_removes_every_fence [of "ascii '' x = 1 ''"] x
  have "\<not> isspace (hd (clean_code (ascii '' x = 1 '')))
        \<and> \<not> isspace (last (clean_code (ascii '' x = 1 '')))" by blast
  ultimately show ?thesis using s c by blast
qed

end
